theory Spec2Isabelle
  imports Main "HOL-Library.Word" "HOL-Library.Sublist"
begin

unbundle bit_operations_syntax

section \<open>The x86-64 page-table walker of \<^verbatim>\<open>arch/x86/page_tables/page_tables.cpp\<close>\<close>

text \<open>
  The development embeds the recursive range operators of \<^verbatim>\<open>X86PageTableBase\<close>
  (\<^verbatim>\<open>AddMapping\<close>, \<^verbatim>\<open>RemoveMapping\<close>, \<^verbatim>\<open>UpdateMapping\<close>, \<^verbatim>\<open>GetMapping\<close>), the
  primitives under them (\<^verbatim>\<open>UpdateEntry\<close>, \<^verbatim>\<open>UnmapEntry\<close>, \<^verbatim>\<open>SplitLargePage\<close>,
  \<^verbatim>\<open>CacheLineFlusher\<close>, \<^verbatim>\<open>MappingCursor\<close>) and the public operations above them.

  Conventions of the embedding.
  \<^item> Addresses, sizes and page-table entries are 64-bit words; \<open>+\<close> and \<open>-\<close> wrap as the
    unsigned C types do.
  \<^item> The memory holding the paging structures is modelled as the tree the pointers form: a
    table is its kernel-virtual address and its entries, and an entry is the stored word
    together with the lower-level table installed behind it (if any). A pointer
    \<^verbatim>\<open>volatile pt_entry_t* table\<close> is a \<open>table option\<close>, \<open>None\<close> being \<^verbatim>\<open>nullptr\<close>.
    This presupposes the frame allocator's contract (a fresh frame never aliases a live table)
    and that \<^verbatim>\<open>X86_PHYS_TO_VIRT\<close> inverts \<^verbatim>\<open>X86_VIRT_TO_PHYS\<close> on table frames.
  \<^item> The walkers are the release build: \<^verbatim>\<open>DEBUG_ASSERT\<close> is compiled out. Reading through a
    null table pointer and \<^verbatim>\<open>panic\<close> are results of type \<open>fault\<close>.
  \<^item> The frame allocator is the list of its future answers; clflush+mfence, TLB invalidations,
    allocations, frees and lock operations are appended to a trace.
\<close>

subsection \<open>Types and architectural constants\<close>

type_synonym vaddr_t = "64 word"
type_synonym paddr_t = "64 word"
type_synonym size_t = "64 word"
type_synonym pt_entry_t = "64 word"
type_synonym PtFlags = "64 word"
type_synonym mmu_flags_t = "32 word"

datatype PageTableLevel = PT_L | PD_L | PDP_L | PML4_L

datatype zx_status_t =
  ZX_OK | ZX_ERR_INVALID_ARGS | ZX_ERR_ALREADY_EXISTS | ZX_ERR_NO_MEMORY | ZX_ERR_NOT_FOUND

datatype fault = NullDeref | Panic

text \<open>
  Modelled from the spec: the header \<^verbatim>\<open>arch/x86/page_tables/constants.h\<close> is not among the
  sources. The spec fixes \<^verbatim>\<open>PAGE_SIZE = 4096\<close>, four levels and \<open>N = 512\<close> entries per table,
  with 2 MiB and 1 GiB large pages; the bit positions are those of the x86-64 architecture.
\<close>

definition PT_SHIFT :: nat where "PT_SHIFT = 12"
definition PD_SHIFT :: nat where "PD_SHIFT = 21"
definition PDP_SHIFT :: nat where "PDP_SHIFT = 30"
definition PML4_SHIFT :: nat where "PML4_SHIFT = 39"
definition ADDR_OFFSET :: nat where "ADDR_OFFSET = 9"
definition NO_OF_PT_ENTRIES :: nat where "NO_OF_PT_ENTRIES = 512"
definition PAGE_SIZE :: size_t where "PAGE_SIZE = 4096"

definition X86_MMU_PG_P :: pt_entry_t where "X86_MMU_PG_P = 0x0001"
definition X86_MMU_PG_PS :: pt_entry_t where "X86_MMU_PG_PS = 0x0080"
definition X86_PG_FRAME :: pt_entry_t where "X86_PG_FRAME = 0x000ffffffffff000"
definition X86_LARGE_PAGE_FRAME :: pt_entry_t where "X86_LARGE_PAGE_FRAME = 0x000fffffffe00000"
definition X86_HUGE_PAGE_FRAME :: pt_entry_t where "X86_HUGE_PAGE_FRAME = 0x000fffffc0000000"
definition X86_LARGE_FLAGS_MASK :: pt_entry_t where "X86_LARGE_FLAGS_MASK = 0x8000000000001fff"

definition PAGE_OFFSET_MASK_4KB :: vaddr_t where "PAGE_OFFSET_MASK_4KB = push_bit PT_SHIFT 1 - 1"
definition PAGE_OFFSET_MASK_LARGE :: vaddr_t where "PAGE_OFFSET_MASK_LARGE = push_bit PD_SHIFT 1 - 1"
definition PAGE_OFFSET_MASK_HUGE :: vaddr_t where "PAGE_OFFSET_MASK_HUGE = push_bit PDP_SHIFT 1 - 1"

definition IS_PAGE_PRESENT :: "pt_entry_t \<Rightarrow> bool" where
  "IS_PAGE_PRESENT pte = (pte AND X86_MMU_PG_P \<noteq> 0)"

definition IS_LARGE_PAGE :: "pt_entry_t \<Rightarrow> bool" where
  "IS_LARGE_PAGE pte = (pte AND X86_MMU_PG_PS \<noteq> 0)"

definition IS_PAGE_ALIGNED :: "64 word \<Rightarrow> bool" where
  "IS_PAGE_ALIGNED x = (x AND (PAGE_SIZE - 1) = 0)"

subsection \<open>Level geometry\<close>

text \<open>\<^verbatim>\<open>page_size\<close>: the switch has a case for each of the four levels.\<close>

fun page_size :: "PageTableLevel \<Rightarrow> size_t" where
  "page_size PT_L = push_bit PT_SHIFT 1"
| "page_size PD_L = push_bit PD_SHIFT 1"
| "page_size PDP_L = push_bit PDP_SHIFT 1"
| "page_size PML4_L = push_bit PML4_SHIFT 1"

definition page_aligned :: "PageTableLevel \<Rightarrow> vaddr_t \<Rightarrow> bool" where
  "page_aligned level va = (va AND (page_size level - 1) = 0)"

text \<open>\<^verbatim>\<open>vaddr_to_index\<close>: shift and mask with \<^verbatim>\<open>(1ul << ADDR_OFFSET) - 1\<close>; the result is a \<^verbatim>\<open>uint\<close>.\<close>

fun vaddr_to_index :: "PageTableLevel \<Rightarrow> vaddr_t \<Rightarrow> nat" where
  "vaddr_to_index PML4_L va = unat (drop_bit PML4_SHIFT va AND (push_bit ADDR_OFFSET 1 - 1))"
| "vaddr_to_index PDP_L va = unat (drop_bit PDP_SHIFT va AND (push_bit ADDR_OFFSET 1 - 1))"
| "vaddr_to_index PD_L va = unat (drop_bit PD_SHIFT va AND (push_bit ADDR_OFFSET 1 - 1))"
| "vaddr_to_index PT_L va = unat (drop_bit PT_SHIFT va AND (push_bit ADDR_OFFSET 1 - 1))"

text \<open>\<^verbatim>\<open>paddr_from_pte\<close>: the switch has no case for \<^verbatim>\<open>PML4_L\<close>; its default panics.\<close>

fun paddr_from_pte :: "PageTableLevel \<Rightarrow> pt_entry_t \<Rightarrow> fault + paddr_t" where
  "paddr_from_pte PDP_L pte = Inr (pte AND X86_HUGE_PAGE_FRAME)"
| "paddr_from_pte PD_L pte = Inr (pte AND X86_LARGE_PAGE_FRAME)"
| "paddr_from_pte PT_L pte = Inr (pte AND X86_PG_FRAME)"
| "paddr_from_pte PML4_L pte = Inl Panic"

text \<open>
  \<^verbatim>\<open>lower_level\<close> is \<^verbatim>\<open>(PageTableLevel)(level - 1)\<close> under \<^verbatim>\<open>DEBUG_ASSERT(level != 0)\<close>. Every
  caller has left the \<^verbatim>\<open>level == PT_L\<close> case to a leaf specialisation before, so the value at
  \<open>PT_L\<close> is never used; it is \<open>PT_L\<close> here.
\<close>

fun lower_level :: "PageTableLevel \<Rightarrow> PageTableLevel" where
  "lower_level PML4_L = PDP_L"
| "lower_level PDP_L = PD_L"
| "lower_level PD_L = PT_L"
| "lower_level PT_L = PT_L"

fun level_rank :: "PageTableLevel \<Rightarrow> nat" where
  "level_rank PT_L = 0"
| "level_rank PD_L = 1"
| "level_rank PDP_L = 2"
| "level_rank PML4_L = 3"

subsection \<open>Page tables, the trait bundle and the state\<close>

datatype table = Table (tvirt: vaddr_t) (entries: "nat \<Rightarrow> slot")
  and slot = Slot (pte: pt_entry_t) (next_table: "table option")

text \<open>What \<^verbatim>\<open>arch_zero_page\<close> leaves in a fresh frame.\<close>

definition zero_table :: "vaddr_t \<Rightarrow> table" where
  "zero_table m = Table m (\<lambda>_. Slot 0 None)"

text \<open>The address of \<^verbatim>\<open>table + index\<close>: entries are 8 bytes wide.\<close>

definition entry_ptr :: "table \<Rightarrow> nat \<Rightarrow> 64 word" where
  "entry_ptr t index = tvirt t + 8 * of_nat index"

definition set_entry :: "table \<Rightarrow> nat \<Rightarrow> slot \<Rightarrow> table" where
  "set_entry t index e = Table (tvirt t) ((entries t)(index := e))"

text \<open>
  The virtual methods of \<^verbatim>\<open>X86PageTableBase\<close> and the helpers declared in headers that are not
  among the sources; the walker is parametric in all of them.
\<close>

record PtOps =
  top_level :: PageTableLevel
  check_vaddr :: "vaddr_t \<Rightarrow> bool"
  check_paddr :: "paddr_t \<Rightarrow> bool"
  allowed_flags :: "mmu_flags_t \<Rightarrow> bool"
  supports_page_size :: "PageTableLevel \<Rightarrow> bool"
  needs_cache_flushes :: bool
  terminal_flags :: "PageTableLevel \<Rightarrow> mmu_flags_t \<Rightarrow> PtFlags"
  intermediate_flags :: PtFlags
  split_flags :: "PageTableLevel \<Rightarrow> PtFlags \<Rightarrow> PtFlags"
  pt_flags_to_mmu_flags :: "pt_entry_t \<Rightarrow> PageTableLevel \<Rightarrow> mmu_flags_t"
  is_kernel_address :: "vaddr_t \<Rightarrow> bool"
  x86_get_clflush_line_size :: "64 word"
  X86_VIRT_TO_PHYS :: "vaddr_t \<Rightarrow> paddr_t"

datatype event =
    EvClflush "64 word"
  | EvTlbInvalidate PageTableLevel vaddr_t bool bool
  | EvAlloc vaddr_t
  | EvFree paddr_t
  | EvLock
  | EvUnlock

text \<open>
  The object: the root table \<^verbatim>\<open>virt_\<close> and the counter \<^verbatim>\<open>pages_\<close>; with it the environment
  it acts on: \<open>pmm\<close>, the pointers \<^verbatim>\<open>pmm_alloc_kpage\<close> will return from now on (\<open>0\<close> is
  \<^verbatim>\<open>nullptr\<close>; when no answer is left the allocation fails too), and the \<open>trace\<close> of effects.
  The source names the two fields \<^verbatim>\<open>virt_\<close> and \<^verbatim>\<open>pages_\<close>, and the cursor's size \<^verbatim>\<open>size\<close>.
\<close>

record X86PageTableBase =
  virt :: "table option"
  pages :: size_t
  pmm :: "vaddr_t list"
  trace :: "event list"

definition emit :: "event \<Rightarrow> 'a X86PageTableBase_scheme \<Rightarrow> 'a X86PageTableBase_scheme" where
  "emit ev this = this\<lparr>trace := trace this @ [ev]\<rparr>"

subsection \<open>CacheLineFlusher\<close>

record CacheLineFlusher =
  dirty_line :: "64 word"
  cl_mask :: "64 word"
  perform_invalidations :: bool

definition CacheLineFlusher_new :: "PtOps \<Rightarrow> bool \<Rightarrow> CacheLineFlusher" where
  "CacheLineFlusher_new ops perform =
     \<lparr>dirty_line = 0, cl_mask = NOT (x86_get_clflush_line_size ops - 1),
      perform_invalidations = perform\<rparr>"

definition ForceFlush ::
  "CacheLineFlusher \<Rightarrow> X86PageTableBase \<Rightarrow> CacheLineFlusher \<times> X86PageTableBase" where
  "ForceFlush clf this =
     (if dirty_line clf \<noteq> 0 \<and> perform_invalidations clf
      then (clf\<lparr>dirty_line := 0\<rparr>, emit (EvClflush (dirty_line clf)) this)
      else (clf, this))"

definition FlushPtEntry ::
  "CacheLineFlusher \<Rightarrow> 64 word \<Rightarrow> X86PageTableBase \<Rightarrow> CacheLineFlusher \<times> X86PageTableBase" where
  "FlushPtEntry clf entry this =
     (let entry_line = entry AND cl_mask clf in
      if entry_line \<noteq> dirty_line clf
      then (case ForceFlush clf this of (clf', this') \<Rightarrow> (clf'\<lparr>dirty_line := entry_line\<rparr>, this'))
      else (clf, this))"

text \<open>The destructor, run wherever a flusher goes out of scope.\<close>

definition CacheLineFlusher_destroy :: "CacheLineFlusher \<Rightarrow> X86PageTableBase \<Rightarrow> X86PageTableBase" where
  "CacheLineFlusher_destroy clf this = snd (ForceFlush clf this)"

subsection \<open>MappingCursor\<close>

record MappingCursor =
  paddr :: paddr_t
  vaddr :: vaddr_t
  csize :: size_t

definition SkipEntry :: "PageTableLevel \<Rightarrow> MappingCursor \<Rightarrow> MappingCursor" where
  "SkipEntry level c =
     (let ps = page_size level;
          skipped_size = ps - (vaddr c AND (ps - 1));
          sz = (if csize c > skipped_size then skipped_size else csize c)
      in c\<lparr>csize := csize c - sz, vaddr := vaddr c + sz\<rparr>)"

subsection \<open>UpdateEntry and UnmapEntry\<close>

text \<open>
  \<open>pte_ptr\<close> is the address of the entry and \<open>olde\<close> the word it holds; the first component of
  the result is the word stored.
\<close>

definition TlbInvalidatePage ::
  "PageTableLevel \<Rightarrow> vaddr_t \<Rightarrow> bool \<Rightarrow> bool \<Rightarrow> X86PageTableBase \<Rightarrow> X86PageTableBase" where
  "TlbInvalidatePage level va is_global was_terminal this =
     emit (EvTlbInvalidate level va is_global was_terminal) this"

definition UpdateEntry ::
  "PtOps \<Rightarrow> CacheLineFlusher \<Rightarrow> PageTableLevel \<Rightarrow> vaddr_t \<Rightarrow> 64 word \<Rightarrow> pt_entry_t \<Rightarrow>
   paddr_t \<Rightarrow> PtFlags \<Rightarrow> bool \<Rightarrow> X86PageTableBase \<Rightarrow>
   pt_entry_t \<times> CacheLineFlusher \<times> X86PageTableBase" where
  "UpdateEntry ops flusher level va pte_ptr olde pa flags was_terminal this =
     (let newe = pa OR flags OR X86_MMU_PG_P in
      case FlushPtEntry flusher pte_ptr this of (flusher1, this1) \<Rightarrow>
        if IS_PAGE_PRESENT olde
        then (case ForceFlush flusher1 this1 of (flusher2, this2) \<Rightarrow>
                (newe, flusher2,
                 TlbInvalidatePage level va (is_kernel_address ops va) was_terminal this2))
        else (newe, flusher1, this1))"

definition UnmapEntry ::
  "PtOps \<Rightarrow> CacheLineFlusher \<Rightarrow> PageTableLevel \<Rightarrow> vaddr_t \<Rightarrow> 64 word \<Rightarrow> pt_entry_t \<Rightarrow>
   bool \<Rightarrow> X86PageTableBase \<Rightarrow> pt_entry_t \<times> CacheLineFlusher \<times> X86PageTableBase" where
  "UnmapEntry ops flusher level va pte_ptr olde was_terminal this =
     (case FlushPtEntry flusher pte_ptr this of (flusher1, this1) \<Rightarrow>
        if IS_PAGE_PRESENT olde
        then (case ForceFlush flusher1 this1 of (flusher2, this2) \<Rightarrow>
                (0, flusher2,
                 TlbInvalidatePage level va (is_kernel_address ops va) was_terminal this2))
        else (0, flusher1, this1))"

subsection \<open>Allocating and splitting\<close>

text \<open>\<^verbatim>\<open>_map_alloc_page\<close>: a zeroed frame, or \<^verbatim>\<open>nullptr\<close>.\<close>

definition map_alloc_page :: "X86PageTableBase \<Rightarrow> table option \<times> X86PageTableBase" where
  "map_alloc_page this =
     (case pmm this of
        [] \<Rightarrow> (None, emit (EvAlloc 0) this)
      | m # rest \<Rightarrow>
          (if m = 0 then None else Some (zero_table m), emit (EvAlloc m) (this\<lparr>pmm := rest\<rparr>)))"

definition table_ptr :: "table option \<Rightarrow> vaddr_t" where
  "table_ptr table = (case table of None \<Rightarrow> 0 | Some t \<Rightarrow> tvirt t)"

definition get_next_table_from_entry :: "slot \<Rightarrow> table option" where
  "get_next_table_from_entry e =
     (if \<not> IS_PAGE_PRESENT (pte e) \<or> IS_LARGE_PAGE (pte e) then None else next_table e)"

text \<open>
  Loops. A loop is a recursive function of its index and of the tuple of the variables it
  changes; its body is a definition of its own (\<open>_entry\<close>) that returns the tuple the next
  iteration starts from.

  The loop of \<^verbatim>\<open>SplitLargePage\<close> over the entries \<open>i\<close> of the new table \<open>m\<close>:
\<close>

type_synonym split_state =
  "table \<times> CacheLineFlusher \<times> vaddr_t \<times> paddr_t \<times> X86PageTableBase"

definition SplitLargePage_entry ::
  "PtOps \<Rightarrow> PageTableLevel \<Rightarrow> PtFlags \<Rightarrow> size_t \<Rightarrow> nat \<Rightarrow> split_state \<Rightarrow> split_state" where
  "SplitLargePage_entry ops lower flags ps i st =
     (case st of (m, clf, new_vaddr, new_paddr, this) \<Rightarrow>
        (case UpdateEntry ops clf lower new_vaddr (entry_ptr m i) (pte (entries m i))
                new_paddr flags False this of
           (newe, clf', this') \<Rightarrow>
             (set_entry m i (Slot newe (next_table (entries m i))), clf',
              new_vaddr + ps, new_paddr + ps, this')))"

function SplitLargePage_loop ::
  "PtOps \<Rightarrow> PageTableLevel \<Rightarrow> PtFlags \<Rightarrow> size_t \<Rightarrow> nat \<Rightarrow> split_state \<Rightarrow> split_state" where
  "SplitLargePage_loop ops lower flags ps i (m, clf, new_vaddr, new_paddr, this) =
     (if i < NO_OF_PT_ENTRIES
      then SplitLargePage_loop ops lower flags ps (i + 1)
             (SplitLargePage_entry ops lower flags ps i (m, clf, new_vaddr, new_paddr, this))
      else (m, clf, new_vaddr, new_paddr, this))"
  by pat_completeness auto
termination
  by (relation "measure (\<lambda>(ops, lower, flags, ps, i, st). NO_OF_PT_ENTRIES - i)") auto

text \<open>
  \<open>pte_ptr\<close> and \<open>e\<close> are the address and the content of the entry to split; the result carries
  the entry as it is afterwards.
\<close>

definition SplitLargePage ::
  "PtOps \<Rightarrow> PageTableLevel \<Rightarrow> vaddr_t \<Rightarrow> 64 word \<Rightarrow> slot \<Rightarrow> X86PageTableBase \<Rightarrow>
   fault + (zx_status_t \<times> slot \<times> X86PageTableBase)" where
  "SplitLargePage ops level va pte_ptr e this =
     (case map_alloc_page this of
        (None, this1) \<Rightarrow> Inr (ZX_ERR_NO_MEMORY, e, this1)
      | (Some m, this1) \<Rightarrow>
          (case paddr_from_pte level (pte e) of
             Inl f \<Rightarrow> Inl f
           | Inr paddr_base \<Rightarrow>
               (let flags = split_flags ops level (pte e AND X86_LARGE_FLAGS_MASK);
                    clf = CacheLineFlusher_new ops (needs_cache_flushes ops);
                    ps = page_size (lower_level level)
                in case SplitLargePage_loop ops (lower_level level) flags ps 0
                          (m, clf, va, paddr_base, this1) of
                     (m', clf1, new_vaddr, new_paddr, this2) \<Rightarrow>
                       (case UpdateEntry ops clf1 level va pte_ptr (pte e)
                               (X86_VIRT_TO_PHYS ops (tvirt m')) (intermediate_flags ops) True
                               this2 of
                          (newe, clf2, this3) \<Rightarrow>
                            Inr (ZX_OK, Slot newe (Some m'),
                                 CacheLineFlusher_destroy clf2
                                   (this3\<lparr>pages := pages this3 + 1\<rparr>))))))"

subsection \<open>GetMapping\<close>

text \<open>
  The result \<open>None\<close> is \<^verbatim>\<open>ZX_ERR_NOT_FOUND\<close>; \<open>Some (ret_level, pt_val)\<close> is \<^verbatim>\<open>ZX_OK\<close> with the level
  and the content of the entry \<^verbatim>\<open>*mapping\<close> points to.
\<close>

definition GetMappingL0 ::
  "table option \<Rightarrow> vaddr_t \<Rightarrow> fault + (PageTableLevel \<times> pt_entry_t) option" where
  "GetMappingL0 table va =
     (case table of
        None \<Rightarrow> Inl NullDeref
      | Some t \<Rightarrow>
          (let e = entries t (vaddr_to_index PT_L va) in
           if \<not> IS_PAGE_PRESENT (pte e) then Inr None else Inr (Some (PT_L, pte e))))"

function GetMapping ::
  "table option \<Rightarrow> vaddr_t \<Rightarrow> PageTableLevel \<Rightarrow> fault + (PageTableLevel \<times> pt_entry_t) option" where
  "GetMapping table va level =
     (if level = PT_L then GetMappingL0 table va
      else (case table of
              None \<Rightarrow> Inl NullDeref
            | Some t \<Rightarrow>
                (let e = entries t (vaddr_to_index level va); pt_val = pte e in
                 if \<not> IS_PAGE_PRESENT pt_val then Inr None
                 else if IS_LARGE_PAGE pt_val then Inr (Some (level, pt_val))
                 else GetMapping (get_next_table_from_entry e) va (lower_level level))))"
  by pat_completeness auto
termination
  by (relation "measure (\<lambda>(table, va, level). level_rank level)")
     (auto, case_tac level, auto)

subsection \<open>RemoveMapping\<close>

text \<open>
  Every loop over the entries of a table runs while
  \<^verbatim>\<open>index != NO_OF_PT_ENTRIES && new_cursor->size != 0\<close>. The index starts as a 9-bit field of
  the address and is incremented by one, so it never exceeds \<^verbatim>\<open>NO_OF_PT_ENTRIES\<close>, and
  \<open>index < NO_OF_PT_ENTRIES\<close> is the same test. The variables of the loops of
  \<^verbatim>\<open>RemoveMapping\<close> are the table, \<^verbatim>\<open>*new_cursor\<close>, \<^verbatim>\<open>unmapped\<close>, the flusher and the object. The
  walkers return the table they were given, as it is afterwards.
\<close>

type_synonym remove_state =
  "table option \<times> MappingCursor \<times> bool \<times> CacheLineFlusher \<times> X86PageTableBase"

type_synonym remove_result = "fault + (bool \<times> MappingCursor \<times> table option \<times> X86PageTableBase)"

definition RemoveMappingL0_entry ::
  "PtOps \<Rightarrow> nat \<Rightarrow> table \<Rightarrow> MappingCursor \<Rightarrow> bool \<Rightarrow> CacheLineFlusher \<Rightarrow> X86PageTableBase \<Rightarrow>
   remove_state" where
  "RemoveMappingL0_entry ops index t new_cursor unmapped clf this =
     (let e = entries t index;
          advanced = new_cursor\<lparr>vaddr := vaddr new_cursor + PAGE_SIZE,
                                csize := csize new_cursor - PAGE_SIZE\<rparr>
      in if IS_PAGE_PRESENT (pte e)
         then (case UnmapEntry ops clf PT_L (vaddr new_cursor) (entry_ptr t index) (pte e) True this of
                 (newe, clf', this') \<Rightarrow>
                   (Some (set_entry t index (Slot newe (next_table e))), advanced, True, clf', this'))
         else (Some t, advanced, unmapped, clf, this))"

function RemoveMappingL0_loop :: "PtOps \<Rightarrow> nat \<Rightarrow> remove_state \<Rightarrow> fault + remove_state" where
  "RemoveMappingL0_loop ops index (table, new_cursor, unmapped, clf, this) =
     (if index < NO_OF_PT_ENTRIES \<and> csize new_cursor \<noteq> 0
      then (case table of
              None \<Rightarrow> Inl NullDeref
            | Some t \<Rightarrow>
                RemoveMappingL0_loop ops (index + 1)
                  (RemoveMappingL0_entry ops index t new_cursor unmapped clf this))
      else Inr (table, new_cursor, unmapped, clf, this))"
  by pat_completeness auto
termination
  by (relation "measure (\<lambda>(ops, index, st). NO_OF_PT_ENTRIES - index)") auto

definition RemoveMappingL0 ::
  "PtOps \<Rightarrow> table option \<Rightarrow> MappingCursor \<Rightarrow> X86PageTableBase \<Rightarrow> remove_result" where
  "RemoveMappingL0 ops table start_cursor this =
     (case RemoveMappingL0_loop ops (vaddr_to_index PT_L (vaddr start_cursor))
             (table, start_cursor, False, CacheLineFlusher_new ops (needs_cache_flushes ops), this) of
        Inl f \<Rightarrow> Inl f
      | Inr (table', new_cursor, unmapped, clf, this') \<Rightarrow>
          Inr (unmapped, new_cursor, table', CacheLineFlusher_destroy clf this'))"

text \<open>
  The block "Otherwise, we need to split it" of \<^verbatim>\<open>RemoveMapping\<close>, up to \<^verbatim>\<open>pt_val = *e\<close>: it
  returns the entry as it is afterwards. When the split fails the entry is unmapped and the
  cursor skips it; there is no \<^verbatim>\<open>continue\<close> on that path.
\<close>

definition RemoveMapping_split ::
  "PtOps \<Rightarrow> PageTableLevel \<Rightarrow> 64 word \<Rightarrow> slot \<Rightarrow> MappingCursor \<Rightarrow> bool \<Rightarrow> CacheLineFlusher \<Rightarrow>
   X86PageTableBase \<Rightarrow>
   fault + (slot \<times> MappingCursor \<times> bool \<times> CacheLineFlusher \<times> X86PageTableBase)" where
  "RemoveMapping_split ops level pte_ptr e new_cursor unmapped clf this =
     (let ps = page_size level;
          page_vaddr = vaddr new_cursor AND NOT (ps - 1)
      in case SplitLargePage ops level page_vaddr pte_ptr e this of
           Inl f \<Rightarrow> Inl f
         | Inr (status, e1, this1) \<Rightarrow>
             if status \<noteq> ZX_OK
             then (case UnmapEntry ops clf level (vaddr new_cursor) pte_ptr (pte e1) True this1 of
                     (newe, clf', this2) \<Rightarrow>
                       Inr (Slot newe (next_table e1), SkipEntry level new_cursor, True, clf', this2))
             else Inr (e1, new_cursor, unmapped, clf, this1))"

text \<open>
  The scan \<^verbatim>\<open>for (lower_idx = 0; lower_idx < NO_OF_PT_ENTRIES; ++lower_idx)\<close> that breaks at the
  first present entry: the value of \<^verbatim>\<open>lower_idx\<close> after it.
\<close>

function first_present :: "table \<Rightarrow> nat \<Rightarrow> nat" where
  "first_present nt lower_idx =
     (if lower_idx < NO_OF_PT_ENTRIES
      then (if IS_PAGE_PRESENT (pte (entries nt lower_idx)) then lower_idx
            else first_present nt (lower_idx + 1))
      else lower_idx)"
  by pat_completeness auto
termination
  by (relation "measure (\<lambda>(nt, lower_idx). NO_OF_PT_ENTRIES - lower_idx)") auto

text \<open>
  The rest of the loop body, from \<^verbatim>\<open>get_next_table_from_entry(pt_val)\<close> on: the recursive call
  \<open>rec\<close> into the lower level, the decision to free the lower table, and
  \<^verbatim>\<open>*new_cursor = cursor\<close>.
\<close>

definition RemoveMapping_lower ::
  "PtOps \<Rightarrow> (table option \<Rightarrow> MappingCursor \<Rightarrow> X86PageTableBase \<Rightarrow> remove_result) \<Rightarrow>
   PageTableLevel \<Rightarrow> 64 word \<Rightarrow> slot \<Rightarrow> MappingCursor \<Rightarrow> bool \<Rightarrow> CacheLineFlusher \<Rightarrow>
   X86PageTableBase \<Rightarrow>
   fault + (slot \<times> MappingCursor \<times> bool \<times> CacheLineFlusher \<times> X86PageTableBase)" where
  "RemoveMapping_lower ops rec level pte_ptr e new_cursor unmapped clf this =
     (let ps = page_size level in
      case rec (get_next_table_from_entry e) new_cursor this of
        Inl f \<Rightarrow> Inl f
      | Inr (lower_unmapped, cursor, next_table', this1) \<Rightarrow>
          (let unmap_page_table = page_aligned level (vaddr new_cursor) \<and> csize new_cursor \<ge> ps in
           case (if \<not> unmap_page_table \<and> lower_unmapped
                 then (case next_table' of
                         None \<Rightarrow> Inl NullDeref
                       | Some nt \<Rightarrow> Inr (first_present nt 0 = NO_OF_PT_ENTRIES))
                 else Inr unmap_page_table) of
             Inl f \<Rightarrow> Inl f
           | Inr unmap_page_table' \<Rightarrow>
               if unmap_page_table'
               then (case UnmapEntry ops clf level (vaddr new_cursor) pte_ptr (pte e) False this1 of
                       (newe, clf', this2) \<Rightarrow>
                         Inr (Slot newe None, cursor, True, clf',
                              (emit (EvFree (X86_VIRT_TO_PHYS ops (table_ptr next_table'))) this2)
                                \<lparr>pages := pages this2 - 1\<rparr>))
               else Inr (Slot (pte e) next_table', cursor, unmapped, clf, this1)))"

definition RemoveMapping_entry ::
  "PtOps \<Rightarrow> (table option \<Rightarrow> MappingCursor \<Rightarrow> X86PageTableBase \<Rightarrow> remove_result) \<Rightarrow>
   PageTableLevel \<Rightarrow> nat \<Rightarrow> table \<Rightarrow> MappingCursor \<Rightarrow> bool \<Rightarrow> CacheLineFlusher \<Rightarrow>
   X86PageTableBase \<Rightarrow> fault + remove_state" where
  "RemoveMapping_entry ops rec level index t new_cursor unmapped clf this =
     (let ps = page_size level; e = entries t index; pt_val = pte e in
      if \<not> IS_PAGE_PRESENT pt_val
      then Inr (Some t, SkipEntry level new_cursor, unmapped, clf, this)
      else if IS_LARGE_PAGE pt_val \<and> page_aligned level (vaddr new_cursor) \<and> csize new_cursor \<ge> ps
      then (case UnmapEntry ops clf level (vaddr new_cursor) (entry_ptr t index) pt_val True this of
              (newe, clf', this') \<Rightarrow>
                Inr (Some (set_entry t index (Slot newe (next_table e))),
                     new_cursor\<lparr>vaddr := vaddr new_cursor + ps, csize := csize new_cursor - ps\<rparr>,
                     True, clf', this'))
      else (case (if IS_LARGE_PAGE pt_val
                  then RemoveMapping_split ops level (entry_ptr t index) e new_cursor unmapped clf this
                  else Inr (e, new_cursor, unmapped, clf, this)) of
              Inl f \<Rightarrow> Inl f
            | Inr (e1, cursor1, unmapped1, clf1, this1) \<Rightarrow>
                (case RemoveMapping_lower ops rec level (entry_ptr t index) e1 cursor1 unmapped1
                        clf1 this1 of
                   Inl f \<Rightarrow> Inl f
                 | Inr (e2, cursor2, unmapped2, clf2, this2) \<Rightarrow>
                     Inr (Some (set_entry t index e2), cursor2, unmapped2, clf2, this2))))"

function RemoveMapping_loop ::
  "PtOps \<Rightarrow> (table option \<Rightarrow> MappingCursor \<Rightarrow> X86PageTableBase \<Rightarrow> remove_result) \<Rightarrow>
   PageTableLevel \<Rightarrow> nat \<Rightarrow> remove_state \<Rightarrow> fault + remove_state" where
  "RemoveMapping_loop ops rec level index (table, new_cursor, unmapped, clf, this) =
     (if index < NO_OF_PT_ENTRIES \<and> csize new_cursor \<noteq> 0
      then (case table of
              None \<Rightarrow> Inl NullDeref
            | Some t \<Rightarrow>
                (case RemoveMapping_entry ops rec level index t new_cursor unmapped clf this of
                   Inl f \<Rightarrow> Inl f
                 | Inr st \<Rightarrow> RemoveMapping_loop ops rec level (index + 1) st))
      else Inr (table, new_cursor, unmapped, clf, this))"
  by pat_completeness auto
termination
  by (relation "measure (\<lambda>(ops, rec, level, index, st). NO_OF_PT_ENTRIES - index)") auto

function RemoveMapping ::
  "PtOps \<Rightarrow> PageTableLevel \<Rightarrow> table option \<Rightarrow> MappingCursor \<Rightarrow> X86PageTableBase \<Rightarrow>
   remove_result" where
  "RemoveMapping ops level table start_cursor this =
     (if level = PT_L then RemoveMappingL0 ops table start_cursor this
      else (case RemoveMapping_loop ops
                   (\<lambda>next_table cursor this'. RemoveMapping ops (lower_level level) next_table cursor this')
                   level (vaddr_to_index level (vaddr start_cursor))
                   (table, start_cursor, False, CacheLineFlusher_new ops (needs_cache_flushes ops),
                    this) of
              Inl f \<Rightarrow> Inl f
            | Inr (table', new_cursor, unmapped, clf, this') \<Rightarrow>
                Inr (unmapped, new_cursor, table', CacheLineFlusher_destroy clf this')))"
  by pat_completeness auto
termination
  by (relation "measure (\<lambda>(ops, level, rest). level_rank level)")
     (auto, case_tac level, auto)

subsection \<open>AddMapping\<close>

text \<open>
  The variables of the loops of \<^verbatim>\<open>AddMapping\<close> and \<^verbatim>\<open>UpdateMapping\<close> are the table,
  \<^verbatim>\<open>*new_cursor\<close>, the flusher and the object. The loops of \<^verbatim>\<open>AddMapping\<close> can leave the
  function from inside: a body returns, with the variables, the status with which the function
  returns, or \<open>ZX_OK\<close> to go on with the next entry.
\<close>

type_synonym walk_state = "table option \<times> MappingCursor \<times> CacheLineFlusher \<times> X86PageTableBase"

type_synonym add_result =
  "fault + (zx_status_t \<times> MappingCursor \<times> table option \<times> X86PageTableBase)"

definition AddMappingL0_entry ::
  "PtOps \<Rightarrow> PtFlags \<Rightarrow> nat \<Rightarrow> table \<Rightarrow> MappingCursor \<Rightarrow> CacheLineFlusher \<Rightarrow> X86PageTableBase \<Rightarrow>
   zx_status_t \<times> walk_state" where
  "AddMappingL0_entry ops term_flags index t new_cursor clf this =
     (let e = entries t index in
      if IS_PAGE_PRESENT (pte e) then (ZX_ERR_ALREADY_EXISTS, Some t, new_cursor, clf, this)
      else (case UpdateEntry ops clf PT_L (vaddr new_cursor) (entry_ptr t index) (pte e)
                   (paddr new_cursor) term_flags False this of
              (newe, clf', this') \<Rightarrow>
                (ZX_OK, Some (set_entry t index (Slot newe (next_table e))),
                 new_cursor\<lparr>paddr := paddr new_cursor + PAGE_SIZE,
                            vaddr := vaddr new_cursor + PAGE_SIZE,
                            csize := csize new_cursor - PAGE_SIZE\<rparr>, clf', this')))"

function AddMappingL0_loop ::
  "PtOps \<Rightarrow> PtFlags \<Rightarrow> nat \<Rightarrow> walk_state \<Rightarrow> fault + (zx_status_t \<times> walk_state)" where
  "AddMappingL0_loop ops term_flags index (table, new_cursor, clf, this) =
     (if index < NO_OF_PT_ENTRIES \<and> csize new_cursor \<noteq> 0
      then (case table of
              None \<Rightarrow> Inl NullDeref
            | Some t \<Rightarrow>
                (let r = AddMappingL0_entry ops term_flags index t new_cursor clf this in
                 if fst r \<noteq> ZX_OK then Inr r
                 else AddMappingL0_loop ops term_flags (index + 1) (snd r)))
      else Inr (ZX_OK, table, new_cursor, clf, this))"
  by pat_completeness auto
termination
  by (relation "measure (\<lambda>(ops, term_flags, index, st). NO_OF_PT_ENTRIES - index)") auto

definition AddMappingL0 ::
  "PtOps \<Rightarrow> table option \<Rightarrow> mmu_flags_t \<Rightarrow> MappingCursor \<Rightarrow> X86PageTableBase \<Rightarrow> add_result" where
  "AddMappingL0 ops table mmu_flags start_cursor this =
     (case AddMappingL0_loop ops (terminal_flags ops PT_L mmu_flags)
             (vaddr_to_index PT_L (vaddr start_cursor))
             (table, start_cursor, CacheLineFlusher_new ops (needs_cache_flushes ops), this) of
        Inl f \<Rightarrow> Inl f
      | Inr (status, table', new_cursor, clf, this') \<Rightarrow>
          Inr (status, new_cursor, table', CacheLineFlusher_destroy clf this'))"

text \<open>
  The \<^verbatim>\<open>else\<close> branch of the loop body of \<^verbatim>\<open>AddMapping\<close>: create the lower table when the entry
  is not present, then recurse (\<open>rec\<close>) and take over the cursor.
\<close>

definition AddMapping_lower ::
  "PtOps \<Rightarrow> (table option \<Rightarrow> MappingCursor \<Rightarrow> X86PageTableBase \<Rightarrow> add_result) \<Rightarrow>
   PageTableLevel \<Rightarrow> 64 word \<Rightarrow> slot \<Rightarrow> MappingCursor \<Rightarrow> CacheLineFlusher \<Rightarrow> X86PageTableBase \<Rightarrow>
   fault + (zx_status_t \<times> slot \<times> MappingCursor \<times> CacheLineFlusher \<times> X86PageTableBase)" where
  "AddMapping_lower ops rec level pte_ptr e new_cursor clf this =
     (case (if \<not> IS_PAGE_PRESENT (pte e)
            then (case map_alloc_page this of
                    (None, this1) \<Rightarrow> (ZX_ERR_NO_MEMORY, e, clf, this1)
                  | (Some m, this1) \<Rightarrow>
                      (case UpdateEntry ops clf level (vaddr new_cursor) pte_ptr (pte e)
                              (X86_VIRT_TO_PHYS ops (tvirt m)) (intermediate_flags ops) False
                              this1 of
                         (newe, clf', this2) \<Rightarrow>
                           (ZX_OK, Slot newe (Some m), clf', this2\<lparr>pages := pages this2 + 1\<rparr>)))
            else (ZX_OK, e, clf, this)) of
        (status, e1, clf1, this1) \<Rightarrow>
          if status \<noteq> ZX_OK then Inr (status, e1, new_cursor, clf1, this1)
          else (case rec (get_next_table_from_entry e1) new_cursor this1 of
                  Inl f \<Rightarrow> Inl f
                | Inr (ret, cursor, next_table', this2) \<Rightarrow>
                    Inr (ret, Slot (pte e1) next_table', cursor, clf1, this2)))"

definition AddMapping_entry ::
  "PtOps \<Rightarrow> (table option \<Rightarrow> MappingCursor \<Rightarrow> X86PageTableBase \<Rightarrow> add_result) \<Rightarrow>
   mmu_flags_t \<Rightarrow> PageTableLevel \<Rightarrow> nat \<Rightarrow> table \<Rightarrow> MappingCursor \<Rightarrow> CacheLineFlusher \<Rightarrow>
   X86PageTableBase \<Rightarrow> fault + (zx_status_t \<times> walk_state)" where
  "AddMapping_entry ops rec mmu_flags level index t new_cursor clf this =
     (let interm_flags = intermediate_flags ops;
          term_flags = terminal_flags ops level mmu_flags;
          ps = page_size level;
          level_supports_large_pages = supports_page_size ops level;
          e = entries t index;
          pt_val = pte e
      in if IS_PAGE_PRESENT pt_val \<and> IS_LARGE_PAGE pt_val
         then Inr (ZX_ERR_ALREADY_EXISTS, Some t, new_cursor, clf, this)
         else (let level_valigned = page_aligned level (vaddr new_cursor);
                   level_paligned = page_aligned level (paddr new_cursor)
               in if level_supports_large_pages \<and> \<not> IS_PAGE_PRESENT pt_val \<and> level_valigned \<and>
                     level_paligned \<and> csize new_cursor \<ge> ps
                  then (case UpdateEntry ops clf level (vaddr new_cursor) (entry_ptr t index) pt_val
                               (paddr new_cursor) (term_flags OR X86_MMU_PG_PS) False this of
                          (newe, clf', this') \<Rightarrow>
                            Inr (ZX_OK, Some (set_entry t index (Slot newe (next_table e))),
                                 new_cursor\<lparr>paddr := paddr new_cursor + ps,
                                            vaddr := vaddr new_cursor + ps,
                                            csize := csize new_cursor - ps\<rparr>, clf', this'))
                  else (case AddMapping_lower ops rec level (entry_ptr t index) e new_cursor clf
                               this of
                          Inl f \<Rightarrow> Inl f
                        | Inr (ret, e1, cursor, clf1, this1) \<Rightarrow>
                            Inr (ret, Some (set_entry t index e1), cursor, clf1, this1))))"

function AddMapping_loop ::
  "PtOps \<Rightarrow> (table option \<Rightarrow> MappingCursor \<Rightarrow> X86PageTableBase \<Rightarrow> add_result) \<Rightarrow>
   mmu_flags_t \<Rightarrow> PageTableLevel \<Rightarrow> nat \<Rightarrow> walk_state \<Rightarrow> fault + (zx_status_t \<times> walk_state)" where
  "AddMapping_loop ops rec mmu_flags level index (table, new_cursor, clf, this) =
     (if index < NO_OF_PT_ENTRIES \<and> csize new_cursor \<noteq> 0
      then (case table of
              None \<Rightarrow> Inl NullDeref
            | Some t \<Rightarrow>
                (case AddMapping_entry ops rec mmu_flags level index t new_cursor clf this of
                   Inl f \<Rightarrow> Inl f
                 | Inr r \<Rightarrow>
                     if fst r \<noteq> ZX_OK then Inr r
                     else AddMapping_loop ops rec mmu_flags level (index + 1) (snd r)))
      else Inr (ZX_OK, table, new_cursor, clf, this))"
  by pat_completeness auto
termination
  by (relation "measure (\<lambda>(ops, rec, mmu_flags, level, index, st). NO_OF_PT_ENTRIES - index)")
     auto

text \<open>
  The \<^verbatim>\<open>abort\<close> auto-call of \<^verbatim>\<open>AddMapping\<close>, run when the function returns an error: at the top
  level it removes the part of the range that the cursor has passed.
\<close>

definition AddMapping_abort ::
  "PtOps \<Rightarrow> PageTableLevel \<Rightarrow> table option \<Rightarrow> MappingCursor \<Rightarrow> MappingCursor \<Rightarrow>
   X86PageTableBase \<Rightarrow> fault + (table option \<times> X86PageTableBase)" where
  "AddMapping_abort ops level table start_cursor new_cursor this =
     (if level = top_level ops
      then (let cursor = start_cursor\<lparr>csize := csize start_cursor - csize new_cursor\<rparr> in
            if csize cursor > 0
            then (case RemoveMapping ops level table cursor this of
                    Inl f \<Rightarrow> Inl f
                  | Inr (unmapped, result, table', this') \<Rightarrow> Inr (table', this'))
            else Inr (table, this))
      else Inr (table, this))"

text \<open>
  On return the locals are destroyed in reverse order of declaration: the flusher first,
  the \<^verbatim>\<open>abort\<close> auto-call after it (cancelled when the loop ran to its end).
\<close>

function AddMapping ::
  "PtOps \<Rightarrow> mmu_flags_t \<Rightarrow> PageTableLevel \<Rightarrow> table option \<Rightarrow> MappingCursor \<Rightarrow>
   X86PageTableBase \<Rightarrow> add_result" where
  "AddMapping ops mmu_flags level table start_cursor this =
     (if level = PT_L then AddMappingL0 ops table mmu_flags start_cursor this
      else (case AddMapping_loop ops
                   (\<lambda>next_table cursor this'.
                      AddMapping ops mmu_flags (lower_level level) next_table cursor this')
                   mmu_flags level (vaddr_to_index level (vaddr start_cursor))
                   (table, start_cursor, CacheLineFlusher_new ops (needs_cache_flushes ops), this) of
              Inl f \<Rightarrow> Inl f
            | Inr (status, table', new_cursor, clf, this') \<Rightarrow>
                if status \<noteq> ZX_OK
                then (case AddMapping_abort ops level table' start_cursor new_cursor
                             (CacheLineFlusher_destroy clf this') of
                        Inl f \<Rightarrow> Inl f
                      | Inr (table'', this'') \<Rightarrow> Inr (status, new_cursor, table'', this''))
                else Inr (ZX_OK, new_cursor, table', CacheLineFlusher_destroy clf this')))"
  by pat_completeness auto
termination
  by (relation "measure (\<lambda>(ops, mmu_flags, level, rest). level_rank level)")
     (auto, case_tac level, auto)

subsection \<open>UpdateMapping\<close>

definition UpdateMappingL0_entry ::
  "PtOps \<Rightarrow> PtFlags \<Rightarrow> nat \<Rightarrow> table \<Rightarrow> MappingCursor \<Rightarrow> CacheLineFlusher \<Rightarrow> X86PageTableBase \<Rightarrow>
   fault + walk_state" where
  "UpdateMappingL0_entry ops term_flags index t new_cursor clf this =
     (let e = entries t index;
          pt_val = pte e;
          advanced = new_cursor\<lparr>vaddr := vaddr new_cursor + PAGE_SIZE,
                                csize := csize new_cursor - PAGE_SIZE\<rparr>
      in if IS_PAGE_PRESENT pt_val
         then (case paddr_from_pte PT_L pt_val of
                 Inl f \<Rightarrow> Inl f
               | Inr pa \<Rightarrow>
                   (case UpdateEntry ops clf PT_L (vaddr new_cursor) (entry_ptr t index) pt_val pa
                           term_flags True this of
                      (newe, clf', this') \<Rightarrow>
                        Inr (Some (set_entry t index (Slot newe (next_table e))), advanced, clf',
                             this')))
         else Inr (Some t, advanced, clf, this))"

function UpdateMappingL0_loop ::
  "PtOps \<Rightarrow> PtFlags \<Rightarrow> nat \<Rightarrow> walk_state \<Rightarrow> fault + walk_state" where
  "UpdateMappingL0_loop ops term_flags index (table, new_cursor, clf, this) =
     (if index < NO_OF_PT_ENTRIES \<and> csize new_cursor \<noteq> 0
      then (case table of
              None \<Rightarrow> Inl NullDeref
            | Some t \<Rightarrow>
                (case UpdateMappingL0_entry ops term_flags index t new_cursor clf this of
                   Inl f \<Rightarrow> Inl f
                 | Inr st \<Rightarrow> UpdateMappingL0_loop ops term_flags (index + 1) st))
      else Inr (table, new_cursor, clf, this))"
  by pat_completeness auto
termination
  by (relation "measure (\<lambda>(ops, term_flags, index, st). NO_OF_PT_ENTRIES - index)") auto

definition UpdateMappingL0 ::
  "PtOps \<Rightarrow> table option \<Rightarrow> mmu_flags_t \<Rightarrow> MappingCursor \<Rightarrow> X86PageTableBase \<Rightarrow> add_result" where
  "UpdateMappingL0 ops table mmu_flags start_cursor this =
     (case UpdateMappingL0_loop ops (terminal_flags ops PT_L mmu_flags)
             (vaddr_to_index PT_L (vaddr start_cursor))
             (table, start_cursor, CacheLineFlusher_new ops (needs_cache_flushes ops), this) of
        Inl f \<Rightarrow> Inl f
      | Inr (table', new_cursor, clf, this') \<Rightarrow>
          Inr (ZX_OK, new_cursor, table', CacheLineFlusher_destroy clf this'))"

text \<open>
  The block "Otherwise, we need to split it" of \<^verbatim>\<open>UpdateMapping\<close>, up to \<^verbatim>\<open>pt_val = *e\<close>. When
  the split fails, \<^verbatim>\<open>RemoveMapping\<close> runs on this same table with a cursor of one page of this
  level (its \<^verbatim>\<open>paddr\<close> is left uninitialised by the source and never read; it is 0 here),
  and the cursor skips the entry; there is no \<^verbatim>\<open>continue\<close> on that path. The result is the
  whole table.
\<close>

definition UpdateMapping_split ::
  "PtOps \<Rightarrow> PageTableLevel \<Rightarrow> nat \<Rightarrow> table \<Rightarrow> MappingCursor \<Rightarrow> X86PageTableBase \<Rightarrow>
   fault + (table option \<times> MappingCursor \<times> X86PageTableBase)" where
  "UpdateMapping_split ops level index t new_cursor this =
     (let ps = page_size level;
          page_vaddr = vaddr new_cursor AND NOT (ps - 1)
      in case SplitLargePage ops level page_vaddr (entry_ptr t index) (entries t index) this of
           Inl f \<Rightarrow> Inl f
         | Inr (ret, e1, this1) \<Rightarrow>
             if ret \<noteq> ZX_OK
             then (let cursor = \<lparr>paddr = 0, vaddr = vaddr new_cursor, csize = ps\<rparr> in
                   case RemoveMapping ops level (Some (set_entry t index e1)) cursor this1 of
                     Inl f \<Rightarrow> Inl f
                   | Inr (unmapped, tmp_cursor, table', this2) \<Rightarrow>
                       Inr (table', SkipEntry level new_cursor, this2))
             else Inr (Some (set_entry t index e1), new_cursor, this1))"

text \<open>
  The loop body of \<^verbatim>\<open>UpdateMapping\<close>. \<^verbatim>\<open>ASSERT(false)\<close> after a failed recursive call is
  compiled into every build: it is a panic.
\<close>

definition UpdateMapping_entry ::
  "PtOps \<Rightarrow> (table option \<Rightarrow> MappingCursor \<Rightarrow> X86PageTableBase \<Rightarrow> add_result) \<Rightarrow>
   PtFlags \<Rightarrow> PageTableLevel \<Rightarrow> nat \<Rightarrow> table \<Rightarrow> MappingCursor \<Rightarrow> CacheLineFlusher \<Rightarrow>
   X86PageTableBase \<Rightarrow> fault + walk_state" where
  "UpdateMapping_entry ops rec term_flags level index t new_cursor clf this =
     (let ps = page_size level; e = entries t index; pt_val = pte e in
      if \<not> IS_PAGE_PRESENT pt_val
      then Inr (Some t, SkipEntry level new_cursor, clf, this)
      else if IS_LARGE_PAGE pt_val \<and> page_aligned level (vaddr new_cursor) \<and> csize new_cursor \<ge> ps
      then (case paddr_from_pte level pt_val of
              Inl f \<Rightarrow> Inl f
            | Inr pa \<Rightarrow>
                (case UpdateEntry ops clf level (vaddr new_cursor) (entry_ptr t index) pt_val pa
                        (term_flags OR X86_MMU_PG_PS) True this of
                   (newe, clf', this') \<Rightarrow>
                     Inr (Some (set_entry t index (Slot newe (next_table e))),
                          new_cursor\<lparr>vaddr := vaddr new_cursor + ps,
                                     csize := csize new_cursor - ps\<rparr>, clf', this')))
      else (case (if IS_LARGE_PAGE pt_val then UpdateMapping_split ops level index t new_cursor this
                  else Inr (Some t, new_cursor, this)) of
              Inl f \<Rightarrow> Inl f
            | Inr (None, cursor1, this1) \<Rightarrow> Inl NullDeref
            | Inr (Some t1, cursor1, this1) \<Rightarrow>
                (case rec (get_next_table_from_entry (entries t1 index)) cursor1 this1 of
                   Inl f \<Rightarrow> Inl f
                 | Inr (ret, cursor, next_table', this2) \<Rightarrow>
                     if ret \<noteq> ZX_OK then Inl Panic
                     else Inr (Some (set_entry t1 index (Slot (pte (entries t1 index)) next_table')),
                               cursor, clf, this2))))"

function UpdateMapping_loop ::
  "PtOps \<Rightarrow> (table option \<Rightarrow> MappingCursor \<Rightarrow> X86PageTableBase \<Rightarrow> add_result) \<Rightarrow>
   PtFlags \<Rightarrow> PageTableLevel \<Rightarrow> nat \<Rightarrow> walk_state \<Rightarrow> fault + walk_state" where
  "UpdateMapping_loop ops rec term_flags level index (table, new_cursor, clf, this) =
     (if index < NO_OF_PT_ENTRIES \<and> csize new_cursor \<noteq> 0
      then (case table of
              None \<Rightarrow> Inl NullDeref
            | Some t \<Rightarrow>
                (case UpdateMapping_entry ops rec term_flags level index t new_cursor clf this of
                   Inl f \<Rightarrow> Inl f
                 | Inr st \<Rightarrow> UpdateMapping_loop ops rec term_flags level (index + 1) st))
      else Inr (table, new_cursor, clf, this))"
  by pat_completeness auto
termination
  by (relation "measure (\<lambda>(ops, rec, term_flags, level, index, st). NO_OF_PT_ENTRIES - index)")
     auto

function UpdateMapping ::
  "PtOps \<Rightarrow> mmu_flags_t \<Rightarrow> PageTableLevel \<Rightarrow> table option \<Rightarrow> MappingCursor \<Rightarrow>
   X86PageTableBase \<Rightarrow> add_result" where
  "UpdateMapping ops mmu_flags level table start_cursor this =
     (if level = PT_L then UpdateMappingL0 ops table mmu_flags start_cursor this
      else (case UpdateMapping_loop ops
                   (\<lambda>next_table cursor this'.
                      UpdateMapping ops mmu_flags (lower_level level) next_table cursor this')
                   (terminal_flags ops level mmu_flags) level
                   (vaddr_to_index level (vaddr start_cursor))
                   (table, start_cursor, CacheLineFlusher_new ops (needs_cache_flushes ops), this) of
              Inl f \<Rightarrow> Inl f
            | Inr (table', new_cursor, clf, this') \<Rightarrow>
                Inr (ZX_OK, new_cursor, table', CacheLineFlusher_destroy clf this')))"
  by pat_completeness auto
termination
  by (relation "measure (\<lambda>(ops, mmu_flags, level, rest). level_rank level)")
     (auto, case_tac level, auto)

subsection \<open>The public operations\<close>

text \<open>
  \<^verbatim>\<open>fbl::AutoLock a(&lock_)\<close> appends \<open>EvLock\<close> where it is declared and \<open>EvUnlock\<close> where the
  function returns. The optional out-parameters \<^verbatim>\<open>mapped\<close> and \<^verbatim>\<open>unmapped\<close> receive \<^verbatim>\<open>count\<close> on
  success and are left out.
\<close>

type_synonym api_result = "fault + (zx_status_t \<times> X86PageTableBase)"

definition UnmapPages :: "PtOps \<Rightarrow> vaddr_t \<Rightarrow> size_t \<Rightarrow> X86PageTableBase \<Rightarrow> api_result" where
  "UnmapPages ops va count this =
     (if \<not> check_vaddr ops va then Inr (ZX_ERR_INVALID_ARGS, this)
      else if count = 0 then Inr (ZX_OK, this)
      else (let this1 = emit EvLock this;
                start = \<lparr>paddr = 0, vaddr = va, csize = count * PAGE_SIZE\<rparr>
            in case RemoveMapping ops (top_level ops) (virt this1) start this1 of
                 Inl f \<Rightarrow> Inl f
               | Inr (unmapped, result, table', this2) \<Rightarrow>
                   Inr (ZX_OK, emit EvUnlock (this2\<lparr>virt := table'\<rparr>))))"

text \<open>
  The \<^verbatim>\<open>undo\<close> auto-call of \<^verbatim>\<open>MapPages\<close>: \<open>idx\<close> is the number of pages mapped when the function
  returns an error. The object's \<open>virt\<close> is the root the walks have left.
\<close>

definition MapPages_undo ::
  "PtOps \<Rightarrow> vaddr_t \<Rightarrow> nat \<Rightarrow> X86PageTableBase \<Rightarrow> fault + X86PageTableBase" where
  "MapPages_undo ops va idx this =
     (if idx > 0
      then (let start = \<lparr>paddr = 0, vaddr = va, csize = of_nat idx * PAGE_SIZE\<rparr> in
            case RemoveMapping ops (top_level ops) (virt this) start this of
              Inl f \<Rightarrow> Inl f
            | Inr (unmapped, result, table', this') \<Rightarrow> Inr (this'\<lparr>virt := table'\<rparr>))
      else Inr this)"

text \<open>
  The loop \<^verbatim>\<open>for (; idx < count; ++idx)\<close> of \<^verbatim>\<open>MapPages\<close> and its body. The array \<^verbatim>\<open>phys\<close> is a
  list and \<^verbatim>\<open>count\<close> its length; the variables are \<open>v\<close> and the object. The loop returns the
  status, the value of \<open>idx\<close> at the exit, and the object.
\<close>

definition MapPages_entry ::
  "PtOps \<Rightarrow> paddr_t list \<Rightarrow> mmu_flags_t \<Rightarrow> nat \<Rightarrow> vaddr_t \<Rightarrow> X86PageTableBase \<Rightarrow>
   fault + (zx_status_t \<times> vaddr_t \<times> X86PageTableBase)" where
  "MapPages_entry ops phys mmu_flags idx v this =
     (let start = \<lparr>paddr = phys ! idx, vaddr = v, csize = PAGE_SIZE\<rparr> in
      case AddMapping ops mmu_flags (top_level ops) (virt this) start this of
        Inl f \<Rightarrow> Inl f
      | Inr (status, result, table', this') \<Rightarrow>
          if status \<noteq> ZX_OK then Inr (status, v, this'\<lparr>virt := table'\<rparr>)
          else Inr (ZX_OK, v + PAGE_SIZE, this'\<lparr>virt := table'\<rparr>))"

function MapPages_loop ::
  "PtOps \<Rightarrow> paddr_t list \<Rightarrow> mmu_flags_t \<Rightarrow> nat \<Rightarrow> vaddr_t \<times> X86PageTableBase \<Rightarrow>
   fault + (zx_status_t \<times> nat \<times> X86PageTableBase)" where
  "MapPages_loop ops phys mmu_flags idx (v, this) =
     (if idx < length phys
      then (case MapPages_entry ops phys mmu_flags idx v this of
              Inl f \<Rightarrow> Inl f
            | Inr r \<Rightarrow>
                if fst r \<noteq> ZX_OK then Inr (fst r, idx, snd (snd r))
                else MapPages_loop ops phys mmu_flags (idx + 1) (snd r))
      else Inr (ZX_OK, idx, this))"
  by pat_completeness auto
termination
  by (relation "measure (\<lambda>(ops, phys, mmu_flags, idx, st). length phys - idx)") auto

definition MapPages ::
  "PtOps \<Rightarrow> vaddr_t \<Rightarrow> paddr_t list \<Rightarrow> mmu_flags_t \<Rightarrow> X86PageTableBase \<Rightarrow> api_result" where
  "MapPages ops va phys mmu_flags this =
     (if \<not> check_vaddr ops va then Inr (ZX_ERR_INVALID_ARGS, this)
      else if \<not> list_all (check_paddr ops) phys then Inr (ZX_ERR_INVALID_ARGS, this)
      else if length phys = 0 then Inr (ZX_OK, this)
      else if \<not> allowed_flags ops mmu_flags then Inr (ZX_ERR_INVALID_ARGS, this)
      else (case MapPages_loop ops phys mmu_flags 0 (va, emit EvLock this) of
              Inl f \<Rightarrow> Inl f
            | Inr (status, idx, this1) \<Rightarrow>
                if status \<noteq> ZX_OK
                then (case MapPages_undo ops va idx this1 of
                        Inl f \<Rightarrow> Inl f
                      | Inr this2 \<Rightarrow> Inr (status, emit EvUnlock this2))
                else Inr (ZX_OK, emit EvUnlock this1)))"

definition MapPagesContiguous ::
  "PtOps \<Rightarrow> vaddr_t \<Rightarrow> paddr_t \<Rightarrow> size_t \<Rightarrow> mmu_flags_t \<Rightarrow> X86PageTableBase \<Rightarrow> api_result" where
  "MapPagesContiguous ops va pa count mmu_flags this =
     (if \<not> check_paddr ops pa then Inr (ZX_ERR_INVALID_ARGS, this)
      else if \<not> check_vaddr ops va then Inr (ZX_ERR_INVALID_ARGS, this)
      else if count = 0 then Inr (ZX_OK, this)
      else if \<not> allowed_flags ops mmu_flags then Inr (ZX_ERR_INVALID_ARGS, this)
      else (let this1 = emit EvLock this;
                start = \<lparr>paddr = pa, vaddr = va, csize = count * PAGE_SIZE\<rparr>
            in case AddMapping ops mmu_flags (top_level ops) (virt this1) start this1 of
                 Inl f \<Rightarrow> Inl f
               | Inr (status, result, table', this2) \<Rightarrow>
                   Inr (status, emit EvUnlock (this2\<lparr>virt := table'\<rparr>))))"

definition ProtectPages ::
  "PtOps \<Rightarrow> vaddr_t \<Rightarrow> size_t \<Rightarrow> mmu_flags_t \<Rightarrow> X86PageTableBase \<Rightarrow> api_result" where
  "ProtectPages ops va count mmu_flags this =
     (if \<not> check_vaddr ops va then Inr (ZX_ERR_INVALID_ARGS, this)
      else if count = 0 then Inr (ZX_OK, this)
      else if \<not> allowed_flags ops mmu_flags then Inr (ZX_ERR_INVALID_ARGS, this)
      else (let this1 = emit EvLock this;
                start = \<lparr>paddr = 0, vaddr = va, csize = count * PAGE_SIZE\<rparr>
            in case UpdateMapping ops mmu_flags (top_level ops) (virt this1) start this1 of
                 Inl f \<Rightarrow> Inl f
               | Inr (status, result, table', this2) \<Rightarrow>
                   Inr (status, emit EvUnlock (this2\<lparr>virt := table'\<rparr>))))"

text \<open>
  \<^verbatim>\<open>QueryVaddr\<close> with both out-pointers given: \<open>Some (paddr, mmu_flags)\<close> is what they receive
  with \<^verbatim>\<open>ZX_OK\<close>. The switch on \<^verbatim>\<open>ret_level\<close> has no case for \<^verbatim>\<open>PML4_L\<close>; its default panics.
\<close>

definition QueryVaddr ::
  "PtOps \<Rightarrow> vaddr_t \<Rightarrow> X86PageTableBase \<Rightarrow>
   fault + (zx_status_t \<times> (paddr_t \<times> mmu_flags_t) option \<times> X86PageTableBase)" where
  "QueryVaddr ops va this =
     (let this1 = emit EvLock this in
      case GetMapping (virt this1) va (top_level ops) of
        Inl f \<Rightarrow> Inl f
      | Inr None \<Rightarrow> Inr (ZX_ERR_NOT_FOUND, None, emit EvUnlock this1)
      | Inr (Some (ret_level, last_valid_entry)) \<Rightarrow>
          (case (case ret_level of
                   PDP_L \<Rightarrow> (case paddr_from_pte PDP_L last_valid_entry of
                               Inl f \<Rightarrow> Inl f
                             | Inr pa \<Rightarrow> Inr (pa OR (va AND PAGE_OFFSET_MASK_HUGE)))
                 | PD_L \<Rightarrow> (case paddr_from_pte PD_L last_valid_entry of
                              Inl f \<Rightarrow> Inl f
                            | Inr pa \<Rightarrow> Inr (pa OR (va AND PAGE_OFFSET_MASK_LARGE)))
                 | PT_L \<Rightarrow> (case paddr_from_pte PT_L last_valid_entry of
                              Inl f \<Rightarrow> Inl f
                            | Inr pa \<Rightarrow> Inr (pa OR (va AND PAGE_OFFSET_MASK_4KB)))
                 | PML4_L \<Rightarrow> Inl Panic) of
             Inl f \<Rightarrow> Inl f
           | Inr pa \<Rightarrow>
               Inr (ZX_OK, Some (pa, pt_flags_to_mmu_flags ops last_valid_entry ret_level),
                    emit EvUnlock this1)))"

subsection \<open>An instance of the trait bundle\<close>

text \<open>
  A bundle in the manner of the regular x86-64 MMU, to run the walker on concrete inputs:
  the low bits of \<^verbatim>\<open>mmu_flags\<close> are read (1), write (2) and execute (4) permissions, 2 MiB and
  1 GiB large pages are supported, tables are reached through a physmap at
  \<open>0xffffff8000000000\<close>, and a cache line is 64 bytes.
\<close>

definition mmu_ops :: PtOps where
  "mmu_ops =
     \<lparr>top_level = PML4_L,
      check_vaddr = (\<lambda>va. IS_PAGE_ALIGNED va \<and> (va < 0x800000000000 \<or> va \<ge> 0xffff800000000000)),
      check_paddr = (\<lambda>pa. pa AND NOT X86_PG_FRAME = 0),
      allowed_flags = (\<lambda>f. f AND 1 \<noteq> 0),
      supports_page_size = (\<lambda>level. level = PD_L \<or> level = PDP_L),
      needs_cache_flushes = True,
      terminal_flags = (\<lambda>level f. (if f AND 2 \<noteq> 0 then 0x2 else 0) OR
                                    (if f AND 4 \<noteq> 0 then 0 else 0x8000000000000000)),
      intermediate_flags = 0x6,
      split_flags = (\<lambda>level flags. if level = PD_L then flags AND NOT X86_MMU_PG_PS else flags),
      pt_flags_to_mmu_flags = (\<lambda>pte level. 1 OR (if pte AND 0x2 \<noteq> 0 then 2 else 0) OR
                                              (if pte AND 0x8000000000000000 \<noteq> 0 then 0 else 4)),
      is_kernel_address = (\<lambda>va. va \<ge> 0xffff800000000000),
      x86_get_clflush_line_size = 64,
      X86_VIRT_TO_PHYS = (\<lambda>va. va - 0xffffff8000000000)\<rparr>"

text \<open>An empty address space whose root table lies at \<open>0xffffff8000001000\<close>.\<close>

definition empty_aspace :: "vaddr_t list \<Rightarrow> X86PageTableBase" where
  "empty_aspace frames =
     \<lparr>virt = Some (zero_table 0xffffff8000001000), pages = 0, pmm = frames, trace = []\<rparr>"

section \<open>Auxiliary notions of the proofs\<close>

text \<open>
  The recursive equations are applied by hand, one unfolding at a time.
\<close>

declare SplitLargePage_loop.simps [simp del] RemoveMappingL0_loop.simps [simp del]
  RemoveMapping_loop.simps [simp del] RemoveMapping.simps [simp del]
  AddMappingL0_loop.simps [simp del] AddMapping_loop.simps [simp del] AddMapping.simps [simp del]
  UpdateMappingL0_loop.simps [simp del] UpdateMapping_loop.simps [simp del]
  UpdateMapping.simps [simp del] MapPages_loop.simps [simp del] GetMapping.simps [simp del]
  first_present.simps [simp del]

text \<open>
  The flusher and the events that a store through \<^verbatim>\<open>UpdateEntry\<close> or \<^verbatim>\<open>UnmapEntry\<close> leaves,
  in closed form.
\<close>

definition entry_flusher :: "CacheLineFlusher \<Rightarrow> 64 word \<Rightarrow> pt_entry_t \<Rightarrow> CacheLineFlusher" where
  "entry_flusher clf pte_ptr olde =
     clf\<lparr>dirty_line := (if IS_PAGE_PRESENT olde \<and> perform_invalidations clf then 0
                         else pte_ptr AND cl_mask clf)\<rparr>"

definition entry_events ::
  "PtOps \<Rightarrow> CacheLineFlusher \<Rightarrow> PageTableLevel \<Rightarrow> vaddr_t \<Rightarrow> 64 word \<Rightarrow> pt_entry_t \<Rightarrow> bool \<Rightarrow>
   event list" where
  "entry_events ops clf level va pte_ptr olde was_terminal =
     (let line = pte_ptr AND cl_mask clf in
      (if line \<noteq> dirty_line clf \<and> dirty_line clf \<noteq> 0 \<and> perform_invalidations clf
       then [EvClflush (dirty_line clf)] else []) @
      (if IS_PAGE_PRESENT olde
       then (if line \<noteq> 0 \<and> perform_invalidations clf then [EvClflush line] else []) @
            [EvTlbInvalidate level va (is_kernel_address ops va) was_terminal]
       else []))"

text \<open>
  Kinds of events: the stores of a walk leave flushes and invalidations only (\<open>quiet\<close>); an
  allocation succeeded when it returned a frame, and \<open>alloc_count\<close> and \<open>free_count\<close> count the
  frames allocated and freed.
\<close>

definition is_store_event :: "event \<Rightarrow> bool" where
  "is_store_event e =
     (case e of EvClflush line \<Rightarrow> True | EvTlbInvalidate level va g wt \<Rightarrow> True | _ \<Rightarrow> False)"

definition is_alloc :: "event \<Rightarrow> bool" where
  "is_alloc e = (case e of EvAlloc m \<Rightarrow> True | _ \<Rightarrow> False)"

definition is_free :: "event \<Rightarrow> bool" where
  "is_free e = (case e of EvFree p \<Rightarrow> True | _ \<Rightarrow> False)"

definition quiet :: "event list \<Rightarrow> bool" where
  "quiet evs = list_all is_store_event evs"

definition alloc_count :: "event list \<Rightarrow> nat" where
  "alloc_count evs = length (filter (\<lambda>e. case e of EvAlloc m \<Rightarrow> m \<noteq> 0 | _ \<Rightarrow> False) evs)"

definition free_count :: "event list \<Rightarrow> nat" where
  "free_count evs = length (filter is_free evs)"

text \<open>
  The trace of \<open>s'\<close> extends the trace of \<open>s\<close> by events none of which is an acquisition or a
  release of the lock.
\<close>

definition trace_ext :: "X86PageTableBase \<Rightarrow> X86PageTableBase \<Rightarrow> bool" where
  "trace_ext s s' = (\<exists>evs. trace s' = trace s @ evs \<and> EvLock \<notin> set evs \<and> EvUnlock \<notin> set evs)"

text \<open>
  A public operation that went from \<open>s\<close> to \<open>s'\<close> held the lock throughout: its events are the
  acquisition, then events none of which is an acquisition or a release, then the release.
\<close>

definition under_lock :: "X86PageTableBase \<Rightarrow> X86PageTableBase \<Rightarrow> bool" where
  "under_lock s s' =
     (\<exists>evs. trace s' = trace s @ EvLock # evs @ [EvUnlock] \<and>
            EvLock \<notin> set evs \<and> EvUnlock \<notin> set evs)"

text \<open>
  A cursor \<open>c\<close> of a walk that started at \<open>start\<close>: the end of the range has not moved, the
  remaining size has not grown, and the size is a whole number of pages. \<open>cursor_ok\<close> adds that
  the address is page-aligned as well.
\<close>

definition cursor_inv :: "MappingCursor \<Rightarrow> MappingCursor \<Rightarrow> bool" where
  "cursor_inv start c =
     (vaddr c + csize c = vaddr start + csize start \<and> csize c \<le> csize start \<and>
      IS_PAGE_ALIGNED (csize c))"

definition cursor_ok :: "MappingCursor \<Rightarrow> MappingCursor \<Rightarrow> bool" where
  "cursor_ok start c =
     (vaddr c + csize c = vaddr start + csize start \<and> csize c \<le> csize start \<and>
      IS_PAGE_ALIGNED (vaddr c) \<and> IS_PAGE_ALIGNED (csize c))"

section \<open>Properties\<close>

subsection \<open>Stores to entries in closed form\<close>

lemma quiet_simps [simp]:
  "quiet []" "quiet (a @ b) \<longleftrightarrow> quiet a \<and> quiet b"
  "quiet (EvClflush line # a) \<longleftrightarrow> quiet a" "quiet (EvTlbInvalidate level va g wt # a) \<longleftrightarrow> quiet a"
  "\<not> quiet (EvLock # a)" "\<not> quiet (EvUnlock # a)" "\<not> quiet (EvAlloc m # a)" "\<not> quiet (EvFree p # a)"
  by (simp_all add: quiet_def is_store_event_def)

lemma quiet_no_lock: "quiet evs \<Longrightarrow> EvLock \<notin> set evs \<and> EvUnlock \<notin> set evs"
  by (auto simp: quiet_def list_all_iff is_store_event_def)

lemma quiet_counts [simp]:
  "quiet evs \<Longrightarrow> alloc_count evs = 0" "quiet evs \<Longrightarrow> free_count evs = 0"
  "quiet evs \<Longrightarrow> filter is_alloc evs = []" "quiet evs \<Longrightarrow> filter is_free evs = []"
  by (auto simp: quiet_def list_all_iff is_store_event_def alloc_count_def free_count_def
        is_alloc_def is_free_def filter_empty_conv split: event.splits)

lemma entry_events_quiet [simp]: "quiet (entry_events ops clf level va p olde wt)"
  by (simp add: entry_events_def Let_def)

lemma entry_events_no_lock [simp]:
  "EvLock \<notin> set (entry_events ops clf level va p olde wt)"
  "EvUnlock \<notin> set (entry_events ops clf level va p olde wt)"
  using quiet_no_lock [OF entry_events_quiet] by simp_all

lemma count_simps [simp]:
  "alloc_count [] = 0" "alloc_count (a @ b) = alloc_count a + alloc_count b"
  "alloc_count (EvAlloc m # a) = (if m = 0 then 0 else 1) + alloc_count a"
  "alloc_count (EvFree p # a) = alloc_count a" "alloc_count (EvLock # a) = alloc_count a"
  "alloc_count (EvUnlock # a) = alloc_count a" "alloc_count (EvClflush line # a) = alloc_count a"
  "alloc_count (EvTlbInvalidate level va g wt # a) = alloc_count a"
  "free_count [] = 0" "free_count (a @ b) = free_count a + free_count b"
  "free_count (EvFree p # a) = 1 + free_count a"
  "free_count (EvAlloc m # a) = free_count a" "free_count (EvLock # a) = free_count a"
  "free_count (EvUnlock # a) = free_count a" "free_count (EvClflush line # a) = free_count a"
  "free_count (EvTlbInvalidate level va g wt # a) = free_count a"
  by (simp_all add: alloc_count_def free_count_def is_free_def)

lemma ForceFlush_eq:
  "ForceFlush clf this =
     (clf\<lparr>dirty_line := (if perform_invalidations clf then 0 else dirty_line clf)\<rparr>,
      this\<lparr>trace := trace this @
        (if dirty_line clf \<noteq> 0 \<and> perform_invalidations clf then [EvClflush (dirty_line clf)]
         else [])\<rparr>)"
  by (simp add: ForceFlush_def emit_def)

lemma UpdateEntry_eq:
  "UpdateEntry ops clf level va p olde pa flags wt s =
     (pa OR flags OR X86_MMU_PG_P, entry_flusher clf p olde,
      s\<lparr>trace := trace s @ entry_events ops clf level va p olde wt\<rparr>)"
  by (simp add: UpdateEntry_def FlushPtEntry_def ForceFlush_eq TlbInvalidatePage_def emit_def
      Let_def entry_flusher_def entry_events_def)

lemma UnmapEntry_eq:
  "UnmapEntry ops clf level va p olde wt s =
     (0, entry_flusher clf p olde,
      s\<lparr>trace := trace s @ entry_events ops clf level va p olde wt\<rparr>)"
  by (simp add: UnmapEntry_def FlushPtEntry_def ForceFlush_eq TlbInvalidatePage_def emit_def
      Let_def entry_flusher_def entry_events_def)

lemma destroy_eq:
  "CacheLineFlusher_destroy clf s =
     s\<lparr>trace := trace s @
        (if dirty_line clf \<noteq> 0 \<and> perform_invalidations clf then [EvClflush (dirty_line clf)]
         else [])\<rparr>"
  by (simp add: CacheLineFlusher_destroy_def ForceFlush_eq)

subsection \<open>Invariant rules for the loops\<close>

lemma SplitLargePage_loop_rule:
  assumes step: "\<And>i m clf nv np s m' clf' nv' np' s'. i < NO_OF_PT_ENTRIES \<Longrightarrow> I i m clf nv np s \<Longrightarrow>
                   SplitLargePage_entry ops lower flags ps i (m, clf, nv, np, s) = (m', clf', nv', np', s') \<Longrightarrow>
                   I (Suc i) m' clf' nv' np' s'"
    and init: "I i m clf nv np s" and le: "i \<le> NO_OF_PT_ENTRIES"
    and run: "SplitLargePage_loop ops lower flags ps i (m, clf, nv, np, s) = (m', clf', nv', np', s')"
  shows "I NO_OF_PT_ENTRIES m' clf' nv' np' s'"
  using init le run
proof (induction "NO_OF_PT_ENTRIES - i" arbitrary: i m clf nv np s)
  case 0
  then show ?case by (simp add: SplitLargePage_loop.simps)
next
  case (Suc n)
  then have lt: "i < NO_OF_PT_ENTRIES" by simp
  obtain m1 clf1 nv1 np1 s1 where
    e: "SplitLargePage_entry ops lower flags ps i (m, clf, nv, np, s) = (m1, clf1, nv1, np1, s1)"
    using prod_cases5 by blast
  from Suc.prems(3) lt e
  have r: "SplitLargePage_loop ops lower flags ps (Suc i) (m1, clf1, nv1, np1, s1) = (m', clf', nv', np', s')"
    by (simp add: SplitLargePage_loop.simps[of _ _ _ _ i])
  from Suc.hyps(2) have n: "n = NO_OF_PT_ENTRIES - Suc i" by simp
  from lt have le': "Suc i \<le> NO_OF_PT_ENTRIES" by simp
  from Suc.hyps(1)[OF n step[OF lt Suc.prems(1) e] le' r] show ?case .
qed

lemma RemoveMappingL0_loop_rule:
  assumes step: "\<And>index t c u clf s t' c' u' clf' s'. index < NO_OF_PT_ENTRIES \<Longrightarrow> csize c \<noteq> 0 \<Longrightarrow>
                   I index (Some t) c u clf s \<Longrightarrow>
                   RemoveMappingL0_entry ops index t c u clf s = (t', c', u', clf', s') \<Longrightarrow>
                   I (Suc index) t' c' u' clf' s'"
    and init: "I index table c u clf s"
    and run: "RemoveMappingL0_loop ops index (table, c, u, clf, s) = Inr (table', c', u', clf', s')"
  shows "\<exists>j \<ge> index. I j table' c' u' clf' s' \<and> (j \<ge> NO_OF_PT_ENTRIES \<or> csize c' = 0)"
  using init run
proof (induction "NO_OF_PT_ENTRIES - index" arbitrary: index table c u clf s)
  case 0
  then show ?case by (auto simp: RemoveMappingL0_loop.simps)
next
  case (Suc n)
  show ?case
  proof (cases "csize c \<noteq> 0")
    case True
    from Suc.hyps(2) have lt: "index < NO_OF_PT_ENTRIES" by simp
    with Suc.prems(2) True obtain t where t: "table = Some t"
      by (cases table) (auto simp: RemoveMappingL0_loop.simps)
    obtain t1 c1 u1 clf1 s1 where
      e: "RemoveMappingL0_entry ops index t c u clf s = (t1, c1, u1, clf1, s1)"
      using prod_cases5 by blast
    from Suc.prems(2) True t lt e
    have r: "RemoveMappingL0_loop ops (Suc index) (t1, c1, u1, clf1, s1) = Inr (table', c', u', clf', s')"
      by (simp add: RemoveMappingL0_loop.simps[of _ index])
    from Suc.hyps(2) have n: "n = NO_OF_PT_ENTRIES - Suc index" by simp
    from Suc.hyps(1)[OF n step[OF lt True Suc.prems(1)[unfolded t] e] r]
    show ?thesis by (meson Suc_leD)
  next
    case False
    with Suc.prems show ?thesis
      by (auto simp: RemoveMappingL0_loop.simps)
  qed
qed

lemma RemoveMapping_loop_rule:
  assumes step: "\<And>index t c u clf s t' c' u' clf' s'. index < NO_OF_PT_ENTRIES \<Longrightarrow> csize c \<noteq> 0 \<Longrightarrow>
                   I index (Some t) c u clf s \<Longrightarrow>
                   RemoveMapping_entry ops rec level index t c u clf s = Inr (t', c', u', clf', s') \<Longrightarrow>
                   I (Suc index) t' c' u' clf' s'"
    and init: "I index table c u clf s"
    and run: "RemoveMapping_loop ops rec level index (table, c, u, clf, s) = Inr (table', c', u', clf', s')"
  shows "\<exists>j \<ge> index. I j table' c' u' clf' s' \<and> (j \<ge> NO_OF_PT_ENTRIES \<or> csize c' = 0)"
  using init run
proof (induction "NO_OF_PT_ENTRIES - index" arbitrary: index table c u clf s)
  case 0
  then show ?case by (auto simp: RemoveMapping_loop.simps)
next
  case (Suc n)
  show ?case
  proof (cases "csize c \<noteq> 0")
    case True
    from Suc.hyps(2) have lt: "index < NO_OF_PT_ENTRIES" by simp
    with Suc.prems(2) True obtain t where t: "table = Some t"
      by (cases table) (auto simp: RemoveMapping_loop.simps)
    from Suc.prems(2) True t lt obtain t1 c1 u1 clf1 s1 where
      e: "RemoveMapping_entry ops rec level index t c u clf s = Inr (t1, c1, u1, clf1, s1)" and
      r: "RemoveMapping_loop ops rec level (Suc index) (t1, c1, u1, clf1, s1) = Inr (table', c', u', clf', s')"
      by (auto simp: RemoveMapping_loop.simps[of _ _ _ index] split: sum.splits)
    from Suc.hyps(2) have n: "n = NO_OF_PT_ENTRIES - Suc index" by simp
    from Suc.hyps(1)[OF n step[OF lt True Suc.prems(1)[unfolded t] e] r]
    show ?thesis by (meson Suc_leD)
  next
    case False
    with Suc.prems show ?thesis
      by (auto simp: RemoveMapping_loop.simps)
  qed
qed


lemma AddMappingL0_loop_rule:
  assumes step: "\<And>index t c clf s status t' c' clf' s'. index < NO_OF_PT_ENTRIES \<Longrightarrow> csize c \<noteq> 0 \<Longrightarrow>
                   I index (Some t) c clf s \<Longrightarrow>
                   AddMappingL0_entry ops term_flags index t c clf s = (status, t', c', clf', s') \<Longrightarrow>
                   (status = ZX_OK \<longrightarrow> I (Suc index) t' c' clf' s') \<and>
                   (status \<noteq> ZX_OK \<longrightarrow> R status t' c' clf' s')"
    and init: "I index table c clf s"
    and run: "AddMappingL0_loop ops term_flags index (table, c, clf, s) = Inr (status, table', c', clf', s')"
  shows "(status = ZX_OK \<and> (\<exists>j \<ge> index. I j table' c' clf' s' \<and> (j \<ge> NO_OF_PT_ENTRIES \<or> csize c' = 0))) \<or>
         (status \<noteq> ZX_OK \<and> R status table' c' clf' s')"
  using init run
proof (induction "NO_OF_PT_ENTRIES - index" arbitrary: index table c clf s)
  case 0
  then show ?case by (auto simp: AddMappingL0_loop.simps)
next
  case (Suc n)
  show ?case
  proof (cases "csize c \<noteq> 0")
    case True
    from Suc.hyps(2) have lt: "index < NO_OF_PT_ENTRIES" by simp
    with Suc.prems(2) True obtain t where t: "table = Some t"
      by (cases table) (auto simp: AddMappingL0_loop.simps)
    obtain st1 t1 c1 clf1 s1 where
      e: "AddMappingL0_entry ops term_flags index t c clf s = (st1, t1, c1, clf1, s1)"
      using prod_cases5 by blast
    note stp = step[OF lt True Suc.prems(1)[unfolded t] e]
    show ?thesis
    proof (cases "st1 = ZX_OK")
      case ok: True
      from Suc.prems(2) True t lt e ok
      have r: "AddMappingL0_loop ops term_flags (Suc index) (t1, c1, clf1, s1) = Inr (status, table', c', clf', s')"
        by (simp add: AddMappingL0_loop.simps[of _ _ index])
      from Suc.hyps(2) have n: "n = NO_OF_PT_ENTRIES - Suc index" by simp
      from stp ok have "I (Suc index) t1 c1 clf1 s1" by simp
      from Suc.hyps(1)[OF n this r]
      show ?thesis by (meson Suc_leD)
    next
      case err: False
      from Suc.prems(2) True t lt e err
      have "(status, table', c', clf', s') = (st1, t1, c1, clf1, s1)"
        by (simp add: AddMappingL0_loop.simps[of _ _ index])
      with stp err show ?thesis by simp
    qed
  next
    case False
    with Suc.prems show ?thesis
      by (auto simp: AddMappingL0_loop.simps)
  qed
qed

lemma AddMapping_loop_rule:
  assumes step: "\<And>index t c clf s status t' c' clf' s'. index < NO_OF_PT_ENTRIES \<Longrightarrow> csize c \<noteq> 0 \<Longrightarrow>
                   I index (Some t) c clf s \<Longrightarrow>
                   AddMapping_entry ops rec mmu_flags level index t c clf s = Inr (status, t', c', clf', s') \<Longrightarrow>
                   (status = ZX_OK \<longrightarrow> I (Suc index) t' c' clf' s') \<and>
                   (status \<noteq> ZX_OK \<longrightarrow> R status t' c' clf' s')"
    and init: "I index table c clf s"
    and run: "AddMapping_loop ops rec mmu_flags level index (table, c, clf, s) = Inr (status, table', c', clf', s')"
  shows "(status = ZX_OK \<and> (\<exists>j \<ge> index. I j table' c' clf' s' \<and> (j \<ge> NO_OF_PT_ENTRIES \<or> csize c' = 0))) \<or>
         (status \<noteq> ZX_OK \<and> R status table' c' clf' s')"
  using init run
proof (induction "NO_OF_PT_ENTRIES - index" arbitrary: index table c clf s)
  case 0
  then show ?case by (auto simp: AddMapping_loop.simps)
next
  case (Suc n)
  show ?case
  proof (cases "csize c \<noteq> 0")
    case True
    from Suc.hyps(2) have lt: "index < NO_OF_PT_ENTRIES" by simp
    with Suc.prems(2) True obtain t where t: "table = Some t"
      by (cases table) (auto simp: AddMapping_loop.simps)
    from Suc.prems(2) True t lt obtain st1 t1 c1 clf1 s1 where
      e: "AddMapping_entry ops rec mmu_flags level index t c clf s = Inr (st1, t1, c1, clf1, s1)"
      by (cases "AddMapping_entry ops rec mmu_flags level index t c clf s")
         (auto simp: AddMapping_loop.simps[of _ _ _ _ index])
    note stp = step[OF lt True Suc.prems(1)[unfolded t] e]
    show ?thesis
    proof (cases "st1 = ZX_OK")
      case ok: True
      from Suc.prems(2) True t lt e ok
      have r: "AddMapping_loop ops rec mmu_flags level (Suc index) (t1, c1, clf1, s1) = Inr (status, table', c', clf', s')"
        by (simp add: AddMapping_loop.simps[of _ _ _ _ index])
      from Suc.hyps(2) have n: "n = NO_OF_PT_ENTRIES - Suc index" by simp
      from stp ok have "I (Suc index) t1 c1 clf1 s1" by simp
      from Suc.hyps(1)[OF n this r]
      show ?thesis by (meson Suc_leD)
    next
      case err: False
      from Suc.prems(2) True t lt e err
      have "(status, table', c', clf', s') = (st1, t1, c1, clf1, s1)"
        by (simp add: AddMapping_loop.simps[of _ _ _ _ index])
      with stp err show ?thesis by simp
    qed
  next
    case False
    with Suc.prems show ?thesis
      by (auto simp: AddMapping_loop.simps)
  qed
qed

lemma UpdateMappingL0_loop_rule:
  assumes step: "\<And>index t c clf s t' c' clf' s'. index < NO_OF_PT_ENTRIES \<Longrightarrow> csize c \<noteq> 0 \<Longrightarrow>
                   I index (Some t) c clf s \<Longrightarrow>
                   UpdateMappingL0_entry ops term_flags index t c clf s = Inr (t', c', clf', s') \<Longrightarrow>
                   I (Suc index) t' c' clf' s'"
    and init: "I index table c clf s"
    and run: "UpdateMappingL0_loop ops term_flags index (table, c, clf, s) = Inr (table', c', clf', s')"
  shows "\<exists>j \<ge> index. I j table' c' clf' s' \<and> (j \<ge> NO_OF_PT_ENTRIES \<or> csize c' = 0)"
  using init run
proof (induction "NO_OF_PT_ENTRIES - index" arbitrary: index table c clf s)
  case 0
  then show ?case by (auto simp: UpdateMappingL0_loop.simps)
next
  case (Suc n)
  show ?case
  proof (cases "csize c \<noteq> 0")
    case True
    from Suc.hyps(2) have lt: "index < NO_OF_PT_ENTRIES" by simp
    with Suc.prems(2) True obtain t where t: "table = Some t"
      by (cases table) (auto simp: UpdateMappingL0_loop.simps)
    from Suc.prems(2) True t lt obtain t1 c1 clf1 s1 where
      e: "UpdateMappingL0_entry ops term_flags index t c clf s = Inr (t1, c1, clf1, s1)" and
      r: "UpdateMappingL0_loop ops term_flags (Suc index) (t1, c1, clf1, s1) = Inr (table', c', clf', s')"
      by (auto simp: UpdateMappingL0_loop.simps[of _ _ index] split: sum.splits)
    from Suc.hyps(2) have n: "n = NO_OF_PT_ENTRIES - Suc index" by simp
    from Suc.hyps(1)[OF n step[OF lt True Suc.prems(1)[unfolded t] e] r]
    show ?thesis by (meson Suc_leD)
  next
    case False
    with Suc.prems show ?thesis
      by (auto simp: UpdateMappingL0_loop.simps)
  qed
qed

lemma UpdateMapping_loop_rule:
  assumes step: "\<And>index t c clf s t' c' clf' s'. index < NO_OF_PT_ENTRIES \<Longrightarrow> csize c \<noteq> 0 \<Longrightarrow>
                   I index (Some t) c clf s \<Longrightarrow>
                   UpdateMapping_entry ops rec term_flags level index t c clf s = Inr (t', c', clf', s') \<Longrightarrow>
                   I (Suc index) t' c' clf' s'"
    and init: "I index table c clf s"
    and run: "UpdateMapping_loop ops rec term_flags level index (table, c, clf, s) = Inr (table', c', clf', s')"
  shows "\<exists>j \<ge> index. I j table' c' clf' s' \<and> (j \<ge> NO_OF_PT_ENTRIES \<or> csize c' = 0)"
  using init run
proof (induction "NO_OF_PT_ENTRIES - index" arbitrary: index table c clf s)
  case 0
  then show ?case by (auto simp: UpdateMapping_loop.simps)
next
  case (Suc n)
  show ?case
  proof (cases "csize c \<noteq> 0")
    case True
    from Suc.hyps(2) have lt: "index < NO_OF_PT_ENTRIES" by simp
    with Suc.prems(2) True obtain t where t: "table = Some t"
      by (cases table) (auto simp: UpdateMapping_loop.simps)
    from Suc.prems(2) True t lt obtain t1 c1 clf1 s1 where
      e: "UpdateMapping_entry ops rec term_flags level index t c clf s = Inr (t1, c1, clf1, s1)" and
      r: "UpdateMapping_loop ops rec term_flags level (Suc index) (t1, c1, clf1, s1) = Inr (table', c', clf', s')"
      by (auto simp: UpdateMapping_loop.simps[of _ _ _ _ index] split: sum.splits)
    from Suc.hyps(2) have n: "n = NO_OF_PT_ENTRIES - Suc index" by simp
    from Suc.hyps(1)[OF n step[OF lt True Suc.prems(1)[unfolded t] e] r]
    show ?thesis by (meson Suc_leD)
  next
    case False
    with Suc.prems show ?thesis
      by (auto simp: UpdateMapping_loop.simps)
  qed
qed

subsection \<open>The compound steps by cases\<close>

lemma map_alloc_page_eq:
  "map_alloc_page s =
     (if pmm s = [] \<or> hd (pmm s) = 0 then None else Some (zero_table (hd (pmm s))),
      s\<lparr>pmm := tl (pmm s), trace := trace s @ [EvAlloc (if pmm s = [] then 0 else hd (pmm s))]\<rparr>)"
  by (cases "pmm s") (auto simp: map_alloc_page_def emit_def)

lemma SplitLargePage_loop_result:
  assumes run: "SplitLargePage_loop ops lower flags ps 0 (m, clf, nv, np, s) = (m', clf', nv', np', s')"
  shows "tvirt m' = tvirt m \<and>
         (\<forall>i<NO_OF_PT_ENTRIES. entries m' i =
            Slot ((np + of_nat i * ps) OR flags OR X86_MMU_PG_P) (next_table (entries m i))) \<and>
         (\<forall>i\<ge>NO_OF_PT_ENTRIES. entries m' i = entries m i) \<and>
         (\<exists>evs. s' = s\<lparr>trace := trace s @ evs\<rparr> \<and> quiet evs)"
proof -
  let ?I = "\<lambda>i m1 (clf1 :: CacheLineFlusher) (nv1 :: vaddr_t) np1 s1.
      tvirt m1 = tvirt m \<and> np1 = np + of_nat i * ps \<and>
      (\<forall>j<i. entries m1 j = Slot ((np + of_nat j * ps) OR flags OR X86_MMU_PG_P) (next_table (entries m j))) \<and>
      (\<forall>j\<ge>i. entries m1 j = entries m j) \<and>
      (\<exists>evs. s1 = s\<lparr>trace := trace s @ evs\<rparr> \<and> quiet evs)"
  have "?I NO_OF_PT_ENTRIES m' clf' nv' np' s'"
  proof (rule SplitLargePage_loop_rule[where I = ?I, OF _ _ _ run])
    fix i m1 clf1 nv1 np1 s1 m2 clf2 nv2 np2 s2
    assume lt: "i < NO_OF_PT_ENTRIES" and I: "?I i m1 clf1 nv1 np1 s1"
      and e: "SplitLargePage_entry ops lower flags ps i (m1, clf1, nv1, np1, s1) = (m2, clf2, nv2, np2, s2)"
    from e have m2: "m2 = set_entry m1 i (Slot (np1 OR flags OR X86_MMU_PG_P) (next_table (entries m1 i)))"
      and np2: "np2 = np1 + ps"
      and s2: "s2 = s1\<lparr>trace := trace s1 @ entry_events ops clf1 lower nv1 (entry_ptr m1 i) (pte (entries m1 i)) False\<rparr>"
      by (auto simp: SplitLargePage_entry_def UpdateEntry_eq)
    from I obtain evs where s1: "s1 = s\<lparr>trace := trace s @ evs\<rparr>"
      and nl: "quiet evs" by blast
    have "s2 = s\<lparr>trace := trace s @ evs @
        entry_events ops clf1 lower nv1 (entry_ptr m1 i) (pte (entries m1 i)) False\<rparr>"
      by (subst s2, subst s1, subst s1) simp
    with nl have "\<exists>evs. s2 = s\<lparr>trace := trace s @ evs\<rparr> \<and> quiet evs"
      by (intro exI[of _ "evs @ entry_events ops clf1 lower nv1 (entry_ptr m1 i) (pte (entries m1 i)) False"])
         simp
    moreover have "np2 = np + of_nat (Suc i) * ps"
      using I np2 by (simp add: algebra_simps)
    moreover have "\<forall>j<Suc i. entries m2 j = Slot ((np + of_nat j * ps) OR flags OR X86_MMU_PG_P) (next_table (entries m j))"
      using I by (auto simp: m2 set_entry_def less_Suc_eq)
    moreover have "\<forall>j\<ge>Suc i. entries m2 j = entries m j"
      using I by (auto simp: m2 set_entry_def)
    moreover have "tvirt m2 = tvirt m" using I by (simp add: m2 set_entry_def)
    ultimately show "?I (Suc i) m2 clf2 nv2 np2 s2" by blast
  qed (auto intro: exI[of _ "[]"])
  then show ?thesis by blast
qed

lemma SplitLargePage_cases [consumes 1, case_names oom ok]:
  assumes "SplitLargePage ops level va p e s = Inr (st, e', s')"
  obtains
    (oom) "st = ZX_ERR_NO_MEMORY" "e' = e" "pmm s = [] \<or> hd (pmm s) = 0"
          "s' = s\<lparr>pmm := tl (pmm s), trace := trace s @ [EvAlloc (if pmm s = [] then 0 else hd (pmm s))]\<rparr>"
  | (ok) m' pb evs where "st = ZX_OK" "pmm s \<noteq> []" "hd (pmm s) \<noteq> 0"
          "paddr_from_pte level (pte e) = Inr pb" "tvirt m' = hd (pmm s)"
          "\<forall>i<NO_OF_PT_ENTRIES. entries m' i =
             Slot ((pb + of_nat i * page_size (lower_level level)) OR
                   split_flags ops level (pte e AND X86_LARGE_FLAGS_MASK) OR X86_MMU_PG_P) None"
          "\<forall>i\<ge>NO_OF_PT_ENTRIES. entries m' i = Slot 0 None"
          "e' = Slot (X86_VIRT_TO_PHYS ops (hd (pmm s)) OR intermediate_flags ops OR X86_MMU_PG_P) (Some m')"
          "s' = s\<lparr>pages := pages s + 1, pmm := tl (pmm s),
                   trace := trace s @ EvAlloc (hd (pmm s)) # evs\<rparr>"
          "quiet evs"
proof (cases "pmm s = [] \<or> hd (pmm s) = 0")
  case True
  with assms show ?thesis
    by (intro oom) (auto simp: SplitLargePage_def map_alloc_page_eq)
next
  case False
  let ?m = "zero_table (hd (pmm s))"
  let ?s1 = "s\<lparr>pmm := tl (pmm s), trace := trace s @ [EvAlloc (hd (pmm s))]\<rparr>"
  from assms False obtain pb where pb: "paddr_from_pte level (pte e) = Inr pb"
    by (auto simp: SplitLargePage_def map_alloc_page_eq split: sum.splits)
  obtain m' clf1 nv np s2 where l: "SplitLargePage_loop ops (lower_level level)
        (split_flags ops level (pte e AND X86_LARGE_FLAGS_MASK)) (page_size (lower_level level)) 0
        (?m, CacheLineFlusher_new ops (needs_cache_flushes ops), va, pb, ?s1) = (m', clf1, nv, np, s2)"
    using prod_cases5 by blast
  from SplitLargePage_loop_result[OF l] obtain evs where
    r: "tvirt m' = hd (pmm s)"
       "\<forall>i<NO_OF_PT_ENTRIES. entries m' i =
             Slot ((pb + of_nat i * page_size (lower_level level)) OR
                   split_flags ops level (pte e AND X86_LARGE_FLAGS_MASK) OR X86_MMU_PG_P) None"
       "\<forall>i\<ge>NO_OF_PT_ENTRIES. entries m' i = Slot 0 None"
       "s2 = ?s1\<lparr>trace := trace ?s1 @ evs\<rparr>" "quiet evs"
    by (auto simp: zero_table_def)
  from assms False pb l r(1)
  have "st = ZX_OK"
    "e' = Slot (X86_VIRT_TO_PHYS ops (hd (pmm s)) OR intermediate_flags ops OR X86_MMU_PG_P) (Some m')"
    "s' = (s2\<lparr>pages := pages s2 + 1, trace := trace s2 @ entry_events ops clf1 level va p (pte e) True\<rparr>)
            \<lparr>trace := trace s2 @ entry_events ops clf1 level va p (pte e) True @
               (if dirty_line (entry_flusher clf1 p (pte e)) \<noteq> 0 \<and> perform_invalidations (entry_flusher clf1 p (pte e))
                then [EvClflush (dirty_line (entry_flusher clf1 p (pte e)))] else [])\<rparr>"
    by (auto simp: SplitLargePage_def map_alloc_page_eq Let_def UpdateEntry_eq destroy_eq)
  with False pb r show ?thesis
    by (intro ok[of pb m' "evs @ entry_events ops clf1 level va p (pte e) True @
               (if dirty_line (entry_flusher clf1 p (pte e)) \<noteq> 0 \<and> perform_invalidations (entry_flusher clf1 p (pte e))
                then [EvClflush (dirty_line (entry_flusher clf1 p (pte e)))] else [])"]) auto
qed


lemma RemoveMappingL0_entry_eq:
  "RemoveMappingL0_entry ops index t c u clf s =
     (if IS_PAGE_PRESENT (pte (entries t index))
      then (Some (set_entry t index (Slot 0 (next_table (entries t index)))),
            c\<lparr>vaddr := vaddr c + PAGE_SIZE, csize := csize c - PAGE_SIZE\<rparr>, True,
            entry_flusher clf (entry_ptr t index) (pte (entries t index)),
            s\<lparr>trace := trace s @ entry_events ops clf PT_L (vaddr c) (entry_ptr t index)
                                    (pte (entries t index)) True\<rparr>)
      else (Some t, c\<lparr>vaddr := vaddr c + PAGE_SIZE, csize := csize c - PAGE_SIZE\<rparr>, u, clf, s))"
  by (simp add: RemoveMappingL0_entry_def UnmapEntry_eq Let_def)

lemma RemoveMapping_split_cases [consumes 1, case_names failed ok]:
  assumes "RemoveMapping_split ops level p e c u clf s = Inr (e', c', u', clf', s')"
  obtains
    (failed) st s1 where
      "SplitLargePage ops level (vaddr c AND NOT (page_size level - 1)) p e s = Inr (st, e, s1)"
      "st \<noteq> ZX_OK" "e' = Slot 0 (next_table e)" "c' = SkipEntry level c" "u'"
      "clf' = entry_flusher clf p (pte e)"
      "s' = s1\<lparr>trace := trace s1 @ entry_events ops clf level (vaddr c) p (pte e) True\<rparr>"
  | (ok) "SplitLargePage ops level (vaddr c AND NOT (page_size level - 1)) p e s = Inr (ZX_OK, e', s')"
      "c' = c" "u' = u" "clf' = clf"
proof -
  from assms obtain st e1 s1 where
    sp: "SplitLargePage ops level (vaddr c AND NOT (page_size level - 1)) p e s = Inr (st, e1, s1)"
    by (auto simp: RemoveMapping_split_def Let_def split: sum.splits)
  show ?thesis
  proof (cases "st = ZX_OK")
    case True
    with assms sp show ?thesis by (intro ok) (auto simp: RemoveMapping_split_def Let_def)
  next
    case False
    with sp have "e1 = e" by (cases rule: SplitLargePage_cases) auto
    with assms sp False show ?thesis
      by (intro failed[of st s1]) (auto simp: RemoveMapping_split_def Let_def UnmapEntry_eq)
  qed
qed

lemma RemoveMapping_lower_cases [consumes 1, case_names retained freed]:
  assumes "RemoveMapping_lower ops rec level p e c u clf s = Inr (e', c', u', clf', s')"
  obtains
    (retained) lu nt' where
      "rec (get_next_table_from_entry e) c s = Inr (lu, c', nt', s')"
      "\<not> (page_aligned level (vaddr c) \<and> page_size level \<le> csize c)"
      "lu \<longrightarrow> (\<exists>nt. nt' = Some nt \<and> first_present nt 0 \<noteq> NO_OF_PT_ENTRIES)"
      "e' = Slot (pte e) nt'" "u' = u" "clf' = clf"
  | (freed) lu nt' s1 where
      "rec (get_next_table_from_entry e) c s = Inr (lu, c', nt', s1)"
      "(page_aligned level (vaddr c) \<and> page_size level \<le> csize c) \<or>
       (lu \<and> (\<exists>nt. nt' = Some nt \<and> first_present nt 0 = NO_OF_PT_ENTRIES))"
      "e' = Slot 0 None" "u'" "clf' = entry_flusher clf p (pte e)"
      "s' = s1\<lparr>pages := pages s1 - 1,
                trace := trace s1 @ entry_events ops clf level (vaddr c) p (pte e) False @
                         [EvFree (X86_VIRT_TO_PHYS ops (table_ptr nt'))]\<rparr>"
proof -
  from assms obtain lu c1 nt' s1 where
    r: "rec (get_next_table_from_entry e) c s = Inr (lu, c1, nt', s1)"
    by (auto simp: RemoveMapping_lower_def Let_def split: sum.splits)
  let ?fast = "page_aligned level (vaddr c) \<and> page_size level \<le> csize c"
  show ?thesis
  proof (cases "?fast \<or> (lu \<and> (\<exists>nt. nt' = Some nt \<and> first_present nt 0 = NO_OF_PT_ENTRIES))")
    case True
    with assms r show ?thesis
      by (intro freed[of lu nt' s1])
         (auto simp: RemoveMapping_lower_def Let_def UnmapEntry_eq emit_def
               split: sum.splits if_splits option.splits)
  next
    case False
    with assms r show ?thesis
      by (intro retained[of lu nt'])
         (auto simp: RemoveMapping_lower_def Let_def UnmapEntry_eq emit_def
               split: sum.splits if_splits option.splits)
  qed
qed

lemma RemoveMapping_entry_cases [consumes 1, case_names absent covered split lower]:
  assumes "RemoveMapping_entry ops rec level index t c u clf s = Inr (table', c', u', clf', s')"
  obtains
    (absent) "\<not> IS_PAGE_PRESENT (pte (entries t index))"
      "table' = Some t" "c' = SkipEntry level c" "u' = u" "clf' = clf" "s' = s"
  | (covered) "IS_PAGE_PRESENT (pte (entries t index))" "IS_LARGE_PAGE (pte (entries t index))"
      "page_aligned level (vaddr c)" "page_size level \<le> csize c"
      "table' = Some (set_entry t index (Slot 0 (next_table (entries t index))))"
      "c' = c\<lparr>vaddr := vaddr c + page_size level, csize := csize c - page_size level\<rparr>" "u'"
      "clf' = entry_flusher clf (entry_ptr t index) (pte (entries t index))"
      "s' = s\<lparr>trace := trace s @ entry_events ops clf level (vaddr c) (entry_ptr t index)
                                     (pte (entries t index)) True\<rparr>"
  | (split) e1 c1 u1 clf1 s1 e2 where
      "IS_PAGE_PRESENT (pte (entries t index))" "IS_LARGE_PAGE (pte (entries t index))"
      "\<not> (page_aligned level (vaddr c) \<and> page_size level \<le> csize c)"
      "RemoveMapping_split ops level (entry_ptr t index) (entries t index) c u clf s =
         Inr (e1, c1, u1, clf1, s1)"
      "RemoveMapping_lower ops rec level (entry_ptr t index) e1 c1 u1 clf1 s1 =
         Inr (e2, c', u', clf', s')"
      "table' = Some (set_entry t index e2)"
  | (lower) e2 where
      "IS_PAGE_PRESENT (pte (entries t index))" "\<not> IS_LARGE_PAGE (pte (entries t index))"
      "RemoveMapping_lower ops rec level (entry_ptr t index) (entries t index) c u clf s =
         Inr (e2, c', u', clf', s')"
      "table' = Some (set_entry t index e2)"
proof (cases "IS_PAGE_PRESENT (pte (entries t index))")
  case False
  with assms show ?thesis by (intro absent) (auto simp: RemoveMapping_entry_def Let_def)
next
  case p: True
  show ?thesis
  proof (cases "IS_LARGE_PAGE (pte (entries t index))")
    case False
    with assms p show ?thesis
      by (auto simp: RemoveMapping_entry_def Let_def split: sum.splits intro: lower)
  next
    case l: True
    show ?thesis
    proof (cases "page_aligned level (vaddr c) \<and> page_size level \<le> csize c")
      case True
      with assms p l show ?thesis
        by (intro covered) (auto simp: RemoveMapping_entry_def Let_def UnmapEntry_eq)
    next
      case False
      with assms p l show ?thesis
        by (auto simp: RemoveMapping_entry_def Let_def split: sum.splits intro: split)
    qed
  qed
qed


lemma AddMappingL0_entry_eq:
  "AddMappingL0_entry ops term_flags index t c clf s =
     (if IS_PAGE_PRESENT (pte (entries t index)) then (ZX_ERR_ALREADY_EXISTS, Some t, c, clf, s)
      else (ZX_OK,
            Some (set_entry t index (Slot (paddr c OR term_flags OR X86_MMU_PG_P)
                                          (next_table (entries t index)))),
            c\<lparr>paddr := paddr c + PAGE_SIZE, vaddr := vaddr c + PAGE_SIZE,
              csize := csize c - PAGE_SIZE\<rparr>,
            entry_flusher clf (entry_ptr t index) (pte (entries t index)),
            s\<lparr>trace := trace s @ entry_events ops clf PT_L (vaddr c) (entry_ptr t index)
                                    (pte (entries t index)) False\<rparr>))"
  by (simp add: AddMappingL0_entry_def UpdateEntry_eq Let_def)

lemma AddMapping_lower_cases [consumes 1, case_names oom created existing]:
  assumes "AddMapping_lower ops rec level p e c clf s = Inr (ret, e', c', clf', s')"
  obtains
    (oom) "\<not> IS_PAGE_PRESENT (pte e)" "pmm s = [] \<or> hd (pmm s) = 0"
      "ret = ZX_ERR_NO_MEMORY" "e' = e" "c' = c" "clf' = clf"
      "s' = s\<lparr>pmm := tl (pmm s), trace := trace s @ [EvAlloc (if pmm s = [] then 0 else hd (pmm s))]\<rparr>"
  | (created) nt' where "\<not> IS_PAGE_PRESENT (pte e)" "pmm s \<noteq> []" "hd (pmm s) \<noteq> 0"
      "rec (get_next_table_from_entry
              (Slot (X86_VIRT_TO_PHYS ops (hd (pmm s)) OR intermediate_flags ops OR X86_MMU_PG_P)
                    (Some (zero_table (hd (pmm s)))))) c
           (s\<lparr>pmm := tl (pmm s),
              trace := trace s @ EvAlloc (hd (pmm s)) #
                       entry_events ops clf level (vaddr c) p (pte e) False,
              pages := pages s + 1\<rparr>) =
         Inr (ret, c', nt', s')"
      "e' = Slot (X86_VIRT_TO_PHYS ops (hd (pmm s)) OR intermediate_flags ops OR X86_MMU_PG_P) nt'"
      "clf' = entry_flusher clf p (pte e)"
  | (existing) nt' where "IS_PAGE_PRESENT (pte e)"
      "rec (get_next_table_from_entry e) c s = Inr (ret, c', nt', s')"
      "e' = Slot (pte e) nt'" "clf' = clf"
proof (cases "IS_PAGE_PRESENT (pte e)")
  case True
  with assms show ?thesis
    by (auto simp: AddMapping_lower_def split: sum.splits intro: existing)
next
  case np: False
  show ?thesis
  proof (cases "pmm s = [] \<or> hd (pmm s) = 0")
    case True
    with assms np show ?thesis
      by (intro oom) (auto simp: AddMapping_lower_def map_alloc_page_eq)
  next
    case False
    with assms np show ?thesis
      by (auto simp: AddMapping_lower_def map_alloc_page_eq UpdateEntry_eq zero_table_def
               split: sum.splits intro!: created)
  qed
qed

lemma AddMapping_entry_cases [consumes 1, case_names exists large lower]:
  assumes "AddMapping_entry ops rec mmu_flags level index t c clf s = Inr (status, table', c', clf', s')"
  obtains
    (exists) "IS_PAGE_PRESENT (pte (entries t index))" "IS_LARGE_PAGE (pte (entries t index))"
      "status = ZX_ERR_ALREADY_EXISTS" "table' = Some t" "c' = c" "clf' = clf" "s' = s"
  | (large) "\<not> IS_PAGE_PRESENT (pte (entries t index))" "supports_page_size ops level"
      "page_aligned level (vaddr c)" "page_aligned level (paddr c)" "page_size level \<le> csize c"
      "status = ZX_OK"
      "table' = Some (set_entry t index
                  (Slot (paddr c OR (terminal_flags ops level mmu_flags OR X86_MMU_PG_PS) OR X86_MMU_PG_P)
                        (next_table (entries t index))))"
      "c' = c\<lparr>paddr := paddr c + page_size level, vaddr := vaddr c + page_size level,
                csize := csize c - page_size level\<rparr>"
      "clf' = entry_flusher clf (entry_ptr t index) (pte (entries t index))"
      "s' = s\<lparr>trace := trace s @ entry_events ops clf level (vaddr c) (entry_ptr t index)
                                     (pte (entries t index)) False\<rparr>"
  | (lower) e1 where
      "\<not> (IS_PAGE_PRESENT (pte (entries t index)) \<and> IS_LARGE_PAGE (pte (entries t index)))"
      "\<not> (supports_page_size ops level \<and> \<not> IS_PAGE_PRESENT (pte (entries t index)) \<and>
          page_aligned level (vaddr c) \<and> page_aligned level (paddr c) \<and> page_size level \<le> csize c)"
      "AddMapping_lower ops rec level (entry_ptr t index) (entries t index) c clf s =
         Inr (status, e1, c', clf', s')"
      "table' = Some (set_entry t index e1)"
proof (cases "IS_PAGE_PRESENT (pte (entries t index)) \<and> IS_LARGE_PAGE (pte (entries t index))")
  case True
  with assms show ?thesis by (intro exists) (auto simp: AddMapping_entry_def Let_def)
next
  case ne: False
  show ?thesis
  proof (cases "supports_page_size ops level \<and> \<not> IS_PAGE_PRESENT (pte (entries t index)) \<and>
          page_aligned level (vaddr c) \<and> page_aligned level (paddr c) \<and> page_size level \<le> csize c")
    case True
    with assms ne show ?thesis
      by (intro large) (auto simp: AddMapping_entry_def Let_def UpdateEntry_eq)
  next
    case False
    with assms ne obtain e1 where
      "AddMapping_lower ops rec level (entry_ptr t index) (entries t index) c clf s =
         Inr (status, e1, c', clf', s')" "table' = Some (set_entry t index e1)"
      by (auto simp: AddMapping_entry_def Let_def split: sum.splits)
    with ne False show ?thesis by (intro lower[of e1]) auto
  qed
qed

lemma UpdateMappingL0_entry_eq:
  "UpdateMappingL0_entry ops term_flags index t c clf s =
     Inr (if IS_PAGE_PRESENT (pte (entries t index))
          then (Some (set_entry t index
                        (Slot ((pte (entries t index) AND X86_PG_FRAME) OR term_flags OR X86_MMU_PG_P)
                              (next_table (entries t index)))),
                c\<lparr>vaddr := vaddr c + PAGE_SIZE, csize := csize c - PAGE_SIZE\<rparr>,
                entry_flusher clf (entry_ptr t index) (pte (entries t index)),
                s\<lparr>trace := trace s @ entry_events ops clf PT_L (vaddr c) (entry_ptr t index)
                                        (pte (entries t index)) True\<rparr>)
          else (Some t, c\<lparr>vaddr := vaddr c + PAGE_SIZE, csize := csize c - PAGE_SIZE\<rparr>, clf, s))"
  by (simp add: UpdateMappingL0_entry_def UpdateEntry_eq Let_def)

lemma UpdateMapping_split_cases [consumes 1, case_names failed ok]:
  assumes "UpdateMapping_split ops level index t c s = Inr (table', c', s')"
  obtains
    (failed) st s1 um tmp where
      "SplitLargePage ops level (vaddr c AND NOT (page_size level - 1)) (entry_ptr t index)
         (entries t index) s = Inr (st, entries t index, s1)"
      "st \<noteq> ZX_OK"
      "RemoveMapping ops level (Some t) \<lparr>paddr = 0, vaddr = vaddr c, csize = page_size level\<rparr> s1 =
         Inr (um, tmp, table', s')"
      "c' = SkipEntry level c"
  | (ok) e1 where
      "SplitLargePage ops level (vaddr c AND NOT (page_size level - 1)) (entry_ptr t index)
         (entries t index) s = Inr (ZX_OK, e1, s')"
      "table' = Some (set_entry t index e1)" "c' = c"
proof -
  from assms obtain st e1 s1 where
    sp: "SplitLargePage ops level (vaddr c AND NOT (page_size level - 1)) (entry_ptr t index)
           (entries t index) s = Inr (st, e1, s1)"
    by (auto simp: UpdateMapping_split_def Let_def split: sum.splits)
  show ?thesis
  proof (cases "st = ZX_OK")
    case True
    with assms sp show ?thesis by (intro ok[of e1]) (auto simp: UpdateMapping_split_def Let_def)
  next
    case False
    with sp have e1: "e1 = entries t index" by (cases rule: SplitLargePage_cases) auto
    have "set_entry t index (entries t index) = t"
      by (cases t) (simp add: set_entry_def)
    with assms sp False e1 show ?thesis
      by (auto simp: UpdateMapping_split_def Let_def split: sum.splits intro: failed)
  qed
qed

lemma UpdateMapping_entry_cases [consumes 1, case_names absent covered split lower]:
  assumes "UpdateMapping_entry ops rec term_flags level index t c clf s = Inr (table', c', clf', s')"
  obtains
    (absent) "\<not> IS_PAGE_PRESENT (pte (entries t index))"
      "table' = Some t" "c' = SkipEntry level c" "clf' = clf" "s' = s"
  | (covered) pa where "IS_PAGE_PRESENT (pte (entries t index))" "IS_LARGE_PAGE (pte (entries t index))"
      "page_aligned level (vaddr c)" "page_size level \<le> csize c"
      "paddr_from_pte level (pte (entries t index)) = Inr pa"
      "table' = Some (set_entry t index (Slot (pa OR (term_flags OR X86_MMU_PG_PS) OR X86_MMU_PG_P)
                                              (next_table (entries t index))))"
      "c' = c\<lparr>vaddr := vaddr c + page_size level, csize := csize c - page_size level\<rparr>"
      "clf' = entry_flusher clf (entry_ptr t index) (pte (entries t index))"
      "s' = s\<lparr>trace := trace s @ entry_events ops clf level (vaddr c) (entry_ptr t index)
                                     (pte (entries t index)) True\<rparr>"
  | (split) t1 c1 s1 nt' where
      "IS_PAGE_PRESENT (pte (entries t index))" "IS_LARGE_PAGE (pte (entries t index))"
      "\<not> (page_aligned level (vaddr c) \<and> page_size level \<le> csize c)"
      "UpdateMapping_split ops level index t c s = Inr (Some t1, c1, s1)"
      "rec (get_next_table_from_entry (entries t1 index)) c1 s1 = Inr (ZX_OK, c', nt', s')"
      "table' = Some (set_entry t1 index (Slot (pte (entries t1 index)) nt'))" "clf' = clf"
  | (lower) nt' where
      "IS_PAGE_PRESENT (pte (entries t index))" "\<not> IS_LARGE_PAGE (pte (entries t index))"
      "rec (get_next_table_from_entry (entries t index)) c s = Inr (ZX_OK, c', nt', s')"
      "table' = Some (set_entry t index (Slot (pte (entries t index)) nt'))" "clf' = clf"
proof (cases "IS_PAGE_PRESENT (pte (entries t index))")
  case False
  with assms show ?thesis by (intro absent) (auto simp: UpdateMapping_entry_def Let_def)
next
  case p: True
  show ?thesis
  proof (cases "IS_LARGE_PAGE (pte (entries t index))")
    case False
    with assms p show ?thesis
      by (auto simp: UpdateMapping_entry_def Let_def split: sum.splits if_splits intro: lower)
  next
    case l: True
    show ?thesis
    proof (cases "page_aligned level (vaddr c) \<and> page_size level \<le> csize c")
      case True
      with assms p l show ?thesis
        by (auto simp: UpdateMapping_entry_def Let_def UpdateEntry_eq split: sum.splits intro!: covered)
    next
      case False
      with assms p l obtain t1 c1 s1 nt' where
        "UpdateMapping_split ops level index t c s = Inr (Some t1, c1, s1)"
        "rec (get_next_table_from_entry (entries t1 index)) c1 s1 = Inr (ZX_OK, c', nt', s')"
        "table' = Some (set_entry t1 index (Slot (pte (entries t1 index)) nt'))" "clf' = clf"
        by (auto simp: UpdateMapping_entry_def Let_def split: sum.splits option.splits if_splits)
      with p l False show ?thesis by (intro split[of t1 c1 s1 nt']) auto
    qed
  qed
qed

subsection \<open>The trace only grows\<close>

lemma trace_ext_refl [simp, intro!]: "trace_ext s s"
  by (simp add: trace_ext_def)

lemma trace_ext_trans: "trace_ext s s' \<Longrightarrow> trace_ext s' s'' \<Longrightarrow> trace_ext s s''"
  by (auto simp: trace_ext_def)

lemma trace_ext_upd [simp]:
  "trace_ext s (s'\<lparr>pages := n\<rparr>) = trace_ext s s'"
  "trace_ext s (s'\<lparr>pmm := fs\<rparr>) = trace_ext s s'"
  "trace_ext s (s'\<lparr>virt := v\<rparr>) = trace_ext s s'"
  "trace_ext (s\<lparr>pages := n\<rparr>) s' = trace_ext s s'"
  "trace_ext (s\<lparr>pmm := fs\<rparr>) s' = trace_ext s s'"
  "trace_ext (s\<lparr>virt := v\<rparr>) s' = trace_ext s s'"
  by (simp_all add: trace_ext_def)

lemma trace_ext_app:
  "trace_ext s s' \<Longrightarrow> EvLock \<notin> set evs \<Longrightarrow> EvUnlock \<notin> set evs \<Longrightarrow>
     trace_ext s (s'\<lparr>trace := trace s' @ evs\<rparr>)"
  by (auto simp: trace_ext_def)

lemma trace_ext_appD:
  "trace_ext (s\<lparr>trace := trace s @ evs\<rparr>) s' \<Longrightarrow> EvLock \<notin> set evs \<Longrightarrow> EvUnlock \<notin> set evs \<Longrightarrow>
     trace_ext s s'"
  by (auto simp: trace_ext_def)

lemma trace_ext_destroy: "trace_ext s s' \<Longrightarrow> trace_ext s (CacheLineFlusher_destroy clf s')"
  by (auto simp: destroy_eq trace_ext_def)

lemma SplitLargePage_ext:
  assumes "SplitLargePage ops level va p e s = Inr (st, e', s')"
  shows "trace_ext s s'"
  using assms by (cases rule: SplitLargePage_cases) (auto simp: trace_ext_def dest: quiet_no_lock)

lemma RemoveMappingL0_ext:
  assumes "RemoveMappingL0 ops table c s = Inr (u', c', table', s')"
  shows "trace_ext s s'"
proof -
  from assms obtain clf' s1 where
    l: "RemoveMappingL0_loop ops (vaddr_to_index PT_L (vaddr c))
          (table, c, False, CacheLineFlusher_new ops (needs_cache_flushes ops), s) = Inr (table', c', u', clf', s1)"
    and s': "s' = CacheLineFlusher_destroy clf' s1"
    by (auto simp: RemoveMappingL0_def split: sum.splits)
  have "\<exists>j\<ge>vaddr_to_index PT_L (vaddr c). trace_ext s s1 \<and> (NO_OF_PT_ENTRIES \<le> j \<or> csize c' = 0)"
    by (rule RemoveMappingL0_loop_rule[where I = "\<lambda>i t c u clf s1. trace_ext s s1", OF _ _ l])
       (auto simp: RemoveMappingL0_entry_eq trace_ext_def split: if_splits)
  then show ?thesis by (auto simp: s' intro: trace_ext_destroy)
qed

lemma RemoveMapping_split_ext:
  assumes "RemoveMapping_split ops level p e c u clf s = Inr (e', c', u', clf', s')"
  shows "trace_ext s s'"
  using assms
  by (cases rule: RemoveMapping_split_cases) (auto dest!: SplitLargePage_ext simp: trace_ext_def)

lemma RemoveMapping_lower_ext:
  assumes run: "RemoveMapping_lower ops rec level p e c u clf s = Inr (e', c', u', clf', s')"
    and rec: "\<And>nt c s u' c' nt' s'. rec nt c s = Inr (u', c', nt', s') \<Longrightarrow> trace_ext s s'"
  shows "trace_ext s s'"
  using run
  by (cases rule: RemoveMapping_lower_cases) (auto dest!: rec simp: trace_ext_def)

lemma RemoveMapping_entry_ext:
  assumes run: "RemoveMapping_entry ops rec level index t c u clf s = Inr (table', c', u', clf', s')"
    and rec: "\<And>nt c s u' c' nt' s'. rec nt c s = Inr (u', c', nt', s') \<Longrightarrow> trace_ext s s'"
  shows "trace_ext s s'"
  using run
proof (cases rule: RemoveMapping_entry_cases)
  case (split e1 c1 u1 clf1 s1 e2)
  from RemoveMapping_split_ext[OF split(4)] RemoveMapping_lower_ext[OF split(5) rec]
  show ?thesis by (rule trace_ext_trans)
next
  case (lower e2)
  from RemoveMapping_lower_ext[OF lower(3) rec] show ?thesis .
qed (auto simp: trace_ext_def)

lemma RemoveMapping_ext:
  "RemoveMapping ops level table c s = Inr (u', c', table', s') \<Longrightarrow> trace_ext s s'"
proof (induction ops level table c s arbitrary: u' c' table' s' rule: RemoveMapping.induct)
  case (1 ops level table c s)
  show ?case
  proof (cases "level = PT_L")
    case True
    with "1.prems" show ?thesis by (simp add: RemoveMapping.simps RemoveMappingL0_ext)
  next
    case False
    let ?rec = "\<lambda>next_table cursor this'. RemoveMapping ops (lower_level level) next_table cursor this'"
    from "1.prems" False obtain clf' s1 where
      l: "RemoveMapping_loop ops ?rec level (vaddr_to_index level (vaddr c))
            (table, c, False, CacheLineFlusher_new ops (needs_cache_flushes ops), s) =
          Inr (table', c', u', clf', s1)"
      and s': "s' = CacheLineFlusher_destroy clf' s1"
      by (auto simp: RemoveMapping.simps[of ops level] split: sum.splits)
    have "\<exists>j\<ge>vaddr_to_index level (vaddr c). trace_ext s s1 \<and> (NO_OF_PT_ENTRIES \<le> j \<or> csize c' = 0)"
    proof (rule RemoveMapping_loop_rule[where I = "\<lambda>i t c u clf s1. trace_ext s s1", OF _ _ l])
      fix index t c u clf sa t' c' u' clf' s'
      assume "trace_ext s sa"
        and e: "RemoveMapping_entry ops ?rec level index t c u clf sa = Inr (t', c', u', clf', s')"
      from \<open>trace_ext s sa\<close> RemoveMapping_entry_ext[OF e "1.IH"[OF False]]
      show "trace_ext s s'" by (rule trace_ext_trans)
    qed simp
    then show ?thesis by (auto simp: s' intro: trace_ext_destroy)
  qed
qed


lemma AddMappingL0_ext:
  assumes "AddMappingL0 ops table mmu_flags c s = Inr (st, c', table', s')"
  shows "trace_ext s s'"
proof -
  from assms obtain clf' s1 where
    l: "AddMappingL0_loop ops (terminal_flags ops PT_L mmu_flags) (vaddr_to_index PT_L (vaddr c))
          (table, c, CacheLineFlusher_new ops (needs_cache_flushes ops), s) = Inr (st, table', c', clf', s1)"
    and s': "s' = CacheLineFlusher_destroy clf' s1"
    by (auto simp: AddMappingL0_def split: sum.splits)
  have "(st = ZX_OK \<and> (\<exists>j\<ge>vaddr_to_index PT_L (vaddr c). trace_ext s s1 \<and> (NO_OF_PT_ENTRIES \<le> j \<or> csize c' = 0))) \<or>
        (st \<noteq> ZX_OK \<and> trace_ext s s1)"
    by (rule AddMappingL0_loop_rule[where I = "\<lambda>i t c clf s1. trace_ext s s1"
          and R = "\<lambda>st t c clf s1. trace_ext s s1", OF _ _ l])
       (auto simp: AddMappingL0_entry_eq trace_ext_def split: if_splits)
  then show ?thesis by (auto simp: s' intro: trace_ext_destroy)
qed

lemma AddMapping_lower_ext:
  assumes run: "AddMapping_lower ops rec level p e c clf s = Inr (ret, e', c', clf', s')"
    and rec: "\<And>nt c s st c' nt' s'. rec nt c s = Inr (st, c', nt', s') \<Longrightarrow> trace_ext s s'"
  shows "trace_ext s s'"
  using run
  by (cases rule: AddMapping_lower_cases) (auto dest!: rec simp: trace_ext_def)

lemma AddMapping_entry_ext:
  assumes run: "AddMapping_entry ops rec mmu_flags level index t c clf s = Inr (st, table', c', clf', s')"
    and rec: "\<And>nt c s st c' nt' s'. rec nt c s = Inr (st, c', nt', s') \<Longrightarrow> trace_ext s s'"
  shows "trace_ext s s'"
  using run
proof (cases rule: AddMapping_entry_cases)
  case (lower e1)
  from AddMapping_lower_ext[OF lower(3) rec] show ?thesis .
qed (auto simp: trace_ext_def)

lemma AddMapping_abort_ext:
  assumes "AddMapping_abort ops level table start c s = Inr (table', s')"
  shows "trace_ext s s'"
  using assms
  by (auto simp: AddMapping_abort_def Let_def split: if_splits sum.splits dest: RemoveMapping_ext)

lemma AddMapping_ext:
  "AddMapping ops mmu_flags level table c s = Inr (st, c', table', s') \<Longrightarrow> trace_ext s s'"
proof (induction ops mmu_flags level table c s arbitrary: st c' table' s' rule: AddMapping.induct)
  case (1 ops mmu_flags level table c s)
  show ?case
  proof (cases "level = PT_L")
    case True
    with "1.prems" show ?thesis by (simp add: AddMapping.simps AddMappingL0_ext)
  next
    case False
    let ?rec = "\<lambda>next_table cursor this'. AddMapping ops mmu_flags (lower_level level) next_table cursor this'"
    from "1.prems" False obtain table1 clf' s1 where
      l: "AddMapping_loop ops ?rec mmu_flags level (vaddr_to_index level (vaddr c))
            (table, c, CacheLineFlusher_new ops (needs_cache_flushes ops), s) =
          Inr (st, table1, c', clf', s1)"
      and s': "(st = ZX_OK \<and> table' = table1 \<and> s' = CacheLineFlusher_destroy clf' s1) \<or>
               (st \<noteq> ZX_OK \<and> AddMapping_abort ops level table1 c c' (CacheLineFlusher_destroy clf' s1) = Inr (table', s'))"
      by (auto simp: AddMapping.simps[of ops mmu_flags level] split: sum.splits if_splits)
    have "(st = ZX_OK \<and> (\<exists>j\<ge>vaddr_to_index level (vaddr c). trace_ext s s1 \<and> (NO_OF_PT_ENTRIES \<le> j \<or> csize c' = 0))) \<or>
          (st \<noteq> ZX_OK \<and> trace_ext s s1)"
    proof (rule AddMapping_loop_rule[where I = "\<lambda>i t c clf s1. trace_ext s s1"
          and R = "\<lambda>st t c clf s1. trace_ext s s1", OF _ _ l])
      fix index t c clf sa status t' c' clf' s'
      assume "trace_ext s sa"
        and e: "AddMapping_entry ops ?rec mmu_flags level index t c clf sa = Inr (status, t', c', clf', s')"
      from \<open>trace_ext s sa\<close> AddMapping_entry_ext[OF e "1.IH"[OF False]]
      have "trace_ext s s'" by (rule trace_ext_trans)
      then show "(status = ZX_OK \<longrightarrow> trace_ext s s') \<and> (status \<noteq> ZX_OK \<longrightarrow> trace_ext s s')" by simp
    qed simp
    then have "trace_ext s (CacheLineFlusher_destroy clf' s1)" by (auto intro: trace_ext_destroy)
    with s' show ?thesis by (auto dest!: AddMapping_abort_ext elim: trace_ext_trans)
  qed
qed

lemma UpdateMappingL0_ext:
  assumes "UpdateMappingL0 ops table mmu_flags c s = Inr (st, c', table', s')"
  shows "trace_ext s s' \<and> st = ZX_OK"
proof -
  from assms obtain clf' s1 where
    l: "UpdateMappingL0_loop ops (terminal_flags ops PT_L mmu_flags) (vaddr_to_index PT_L (vaddr c))
          (table, c, CacheLineFlusher_new ops (needs_cache_flushes ops), s) = Inr (table', c', clf', s1)"
    and s': "s' = CacheLineFlusher_destroy clf' s1" and st: "st = ZX_OK"
    by (auto simp: UpdateMappingL0_def split: sum.splits)
  have "\<exists>j\<ge>vaddr_to_index PT_L (vaddr c). trace_ext s s1 \<and> (NO_OF_PT_ENTRIES \<le> j \<or> csize c' = 0)"
    by (rule UpdateMappingL0_loop_rule[where I = "\<lambda>i t c clf s1. trace_ext s s1", OF _ _ l])
       (auto simp: UpdateMappingL0_entry_eq trace_ext_def split: if_splits)
  then show ?thesis by (auto simp: s' st intro: trace_ext_destroy)
qed

lemma UpdateMapping_split_ext:
  assumes "UpdateMapping_split ops level index t c s = Inr (table', c', s')"
  shows "trace_ext s s'"
  using assms
proof (cases rule: UpdateMapping_split_cases)
  case (failed st s1 um tmp)
  from SplitLargePage_ext[OF failed(1)] RemoveMapping_ext[OF failed(3)]
  show ?thesis by (rule trace_ext_trans)
next
  case (ok e1)
  then show ?thesis by (auto dest: SplitLargePage_ext)
qed

lemma UpdateMapping_entry_ext:
  assumes run: "UpdateMapping_entry ops rec term_flags level index t c clf s = Inr (table', c', clf', s')"
    and rec: "\<And>nt c s st c' nt' s'. rec nt c s = Inr (st, c', nt', s') \<Longrightarrow> trace_ext s s'"
  shows "trace_ext s s'"
  using run
proof (cases rule: UpdateMapping_entry_cases)
  case (split t1 c1 s1 nt')
  from UpdateMapping_split_ext[OF split(4)] rec[OF split(5)]
  show ?thesis by (rule trace_ext_trans)
next
  case (lower nt')
  from rec[OF lower(3)] show ?thesis .
qed (auto simp: trace_ext_def)

lemma UpdateMapping_ext:
  "UpdateMapping ops mmu_flags level table c s = Inr (st, c', table', s') \<Longrightarrow>
     trace_ext s s' \<and> st = ZX_OK"
proof (induction ops mmu_flags level table c s arbitrary: st c' table' s' rule: UpdateMapping.induct)
  case (1 ops mmu_flags level table c s)
  show ?case
  proof (cases "level = PT_L")
    case True
    with "1.prems" show ?thesis by (simp add: UpdateMapping.simps UpdateMappingL0_ext)
  next
    case False
    let ?rec = "\<lambda>next_table cursor this'. UpdateMapping ops mmu_flags (lower_level level) next_table cursor this'"
    from "1.prems" False obtain clf' s1 where
      l: "UpdateMapping_loop ops ?rec (terminal_flags ops level mmu_flags) level (vaddr_to_index level (vaddr c))
            (table, c, CacheLineFlusher_new ops (needs_cache_flushes ops), s) =
          Inr (table', c', clf', s1)"
      and s': "s' = CacheLineFlusher_destroy clf' s1" and st: "st = ZX_OK"
      by (auto simp: UpdateMapping.simps[of ops mmu_flags level] split: sum.splits)
    have "\<exists>j\<ge>vaddr_to_index level (vaddr c). trace_ext s s1 \<and> (NO_OF_PT_ENTRIES \<le> j \<or> csize c' = 0)"
    proof (rule UpdateMapping_loop_rule[where I = "\<lambda>i t c clf s1. trace_ext s s1", OF _ _ l])
      fix index t c clf sa t' c' clf' s'
      assume "trace_ext s sa"
        and e: "UpdateMapping_entry ops ?rec (terminal_flags ops level mmu_flags) level index t c clf sa = Inr (t', c', clf', s')"
      have "trace_ext sa s'"
        by (rule UpdateMapping_entry_ext[OF e]) (use "1.IH"[OF False] in blast)
      with \<open>trace_ext s sa\<close> show "trace_ext s s'" by (rule trace_ext_trans)
    qed simp
    then show ?thesis by (auto simp: s' st intro: trace_ext_destroy)
  qed
qed

subsection \<open>Basic facts; the equations that run the model\<close>

lemma vaddr_to_index_less: "vaddr_to_index level va < NO_OF_PT_ENTRIES"
proof -
  have "unat (w AND (push_bit ADDR_OFFSET 1 - 1)) < 512" for w :: "64 word"
  proof -
    have "w AND (push_bit ADDR_OFFSET 1 - 1) \<le> 511"
      by (simp add: ADDR_OFFSET_def word_and_le1)
    then show ?thesis by (simp add: word_le_nat_alt)
  qed
  then show ?thesis by (cases level) (simp_all add: NO_OF_PT_ENTRIES_def)
qed

lemma page_size_nonzero [simp]: "page_size level \<noteq> 0"
  by (cases level) (simp_all add: PT_SHIFT_def PD_SHIFT_def PDP_SHIFT_def PML4_SHIFT_def)

lemma RemoveMapping_null:
  "RemoveMapping ops level None c this =
     (if csize c = 0 then Inr (False, c, None, this) else Inl NullDeref)"
  by (simp del: vaddr_to_index.simps add: RemoveMapping.simps [of ops level] RemoveMappingL0_def
      RemoveMapping_loop.simps [of _ _ _ "vaddr_to_index level (vaddr c)"]
      RemoveMappingL0_loop.simps [of _ "vaddr_to_index PT_L (vaddr c)"]
      vaddr_to_index_less CacheLineFlusher_new_def CacheLineFlusher_destroy_def ForceFlush_def)

lemmas exec_simps =
  PT_SHIFT_def PD_SHIFT_def PDP_SHIFT_def PML4_SHIFT_def ADDR_OFFSET_def NO_OF_PT_ENTRIES_def
  PAGE_SIZE_def X86_MMU_PG_P_def X86_MMU_PG_PS_def X86_PG_FRAME_def X86_LARGE_PAGE_FRAME_def
  X86_HUGE_PAGE_FRAME_def X86_LARGE_FLAGS_MASK_def PAGE_OFFSET_MASK_4KB_def
  PAGE_OFFSET_MASK_LARGE_def PAGE_OFFSET_MASK_HUGE_def IS_PAGE_PRESENT_def IS_LARGE_PAGE_def
  IS_PAGE_ALIGNED_def page_aligned_def zero_table_def entry_ptr_def set_entry_def emit_def
  CacheLineFlusher_new_def ForceFlush_def FlushPtEntry_def CacheLineFlusher_destroy_def
  SkipEntry_def TlbInvalidatePage_def UpdateEntry_def UnmapEntry_def map_alloc_page_def
  table_ptr_def get_next_table_from_entry_def SplitLargePage_entry_def SplitLargePage_loop.simps
  SplitLargePage_def GetMappingL0_def GetMapping.simps RemoveMappingL0_entry_def
  RemoveMappingL0_loop.simps RemoveMappingL0_def RemoveMapping_split_def first_present.simps
  RemoveMapping_lower_def RemoveMapping_entry_def RemoveMapping_loop.simps RemoveMapping.simps
  AddMappingL0_entry_def AddMappingL0_loop.simps AddMappingL0_def AddMapping_lower_def
  AddMapping_entry_def AddMapping_loop.simps AddMapping_abort_def AddMapping.simps
  UpdateMappingL0_entry_def UpdateMappingL0_loop.simps UpdateMappingL0_def UpdateMapping_split_def
  UpdateMapping_entry_def UpdateMapping_loop.simps UpdateMapping.simps UnmapPages_def
  MapPages_undo_def MapPages_entry_def MapPages_loop.simps MapPages_def MapPagesContiguous_def
  ProtectPages_def QueryVaddr_def mmu_ops_def empty_aspace_def Let_def

subsection \<open>Cursors\<close>





















text \<open>
  The cursors of \<^verbatim>\<open>AddMapping\<close>, which never skips an entry: the address need not be aligned.
\<close>

lemma cursor_ok_inv: "cursor_ok start c \<Longrightarrow> cursor_inv start c"
  by (simp add: cursor_ok_def cursor_inv_def)

















subsection \<open>More basic facts\<close>

lemma clean_flusher_destroy [simp]:
  "CacheLineFlusher_destroy (CacheLineFlusher_new ops b) s = s"
  by (simp add: CacheLineFlusher_destroy_def CacheLineFlusher_new_def ForceFlush_def)

lemma AddMapping_null:
  "AddMapping ops f level None c s =
     (if csize c = 0 then Inr (ZX_OK, c, None, s) else Inl NullDeref)"
  by (simp del: vaddr_to_index.simps add: AddMapping.simps [of ops f level] AddMappingL0_def
      AddMapping_loop.simps [of _ _ _ _ "vaddr_to_index level (vaddr c)"]
      AddMappingL0_loop.simps [of _ _ "vaddr_to_index PT_L (vaddr c)"]
      vaddr_to_index_less)

lemma PAGE_SIZE_nonzero [simp]: "PAGE_SIZE \<noteq> 0"
  by (simp add: PAGE_SIZE_def)

lemma page_size_le_PAGE_SIZE: "page_size level \<le> PAGE_SIZE \<longleftrightarrow> level = PT_L"
  by (cases level)
     (simp_all add: PAGE_SIZE_def PT_SHIFT_def PD_SHIFT_def PDP_SHIFT_def PML4_SHIFT_def)

lemma present_or [simp]:
  "IS_PAGE_PRESENT (a OR b) \<longleftrightarrow> IS_PAGE_PRESENT a \<or> IS_PAGE_PRESENT b"
  by (auto simp: IS_PAGE_PRESENT_def word_ao_dist or_eq_0_iff)

lemma large_or [simp]:
  "IS_LARGE_PAGE (a OR b) \<longleftrightarrow> IS_LARGE_PAGE a \<or> IS_LARGE_PAGE b"
  by (auto simp: IS_LARGE_PAGE_def word_ao_dist or_eq_0_iff)

lemma present_P [simp]: "IS_PAGE_PRESENT X86_MMU_PG_P"
  by (simp add: IS_PAGE_PRESENT_def X86_MMU_PG_P_def)

lemma not_present_0 [simp]: "\<not> IS_PAGE_PRESENT 0"
  by (simp add: IS_PAGE_PRESENT_def)

lemma entries_set_entry [simp]:
  "entries (set_entry t i e) j = (if j = i then e else entries t j)"
  by (simp add: set_entry_def)

lemma get_next_SomeD:
  "get_next_table_from_entry e = Some nt \<Longrightarrow>
     IS_PAGE_PRESENT (pte e) \<and> \<not> IS_LARGE_PAGE (pte e) \<and> next_table e = Some nt"
  by (simp add: get_next_table_from_entry_def split: if_splits)

lemma AddMapping_loop_step:
  "index < NO_OF_PT_ENTRIES \<Longrightarrow> csize c \<noteq> 0 \<Longrightarrow>
   AddMapping_loop ops rec f level index (Some t, c, clf, s) =
     (case AddMapping_entry ops rec f level index t c clf s of
        Inl x \<Rightarrow> Inl x
      | Inr r \<Rightarrow> if fst r \<noteq> ZX_OK then Inr r
                 else AddMapping_loop ops rec f level (index + 1) (snd r))"
  by (subst AddMapping_loop.simps) simp

lemma AddMapping_loop_done:
  "csize c = 0 \<Longrightarrow> AddMapping_loop ops rec f level index (table, c, clf, s) =
     Inr (ZX_OK, table, c, clf, s)"
  by (subst AddMapping_loop.simps) simp

lemma RemoveMapping_empty:
  "csize c = 0 \<Longrightarrow> RemoveMapping ops level table c s = Inr (False, c, table, s)"
  by (simp del: vaddr_to_index.simps add: RemoveMapping.simps [of ops level] RemoveMappingL0_def
      RemoveMapping_loop.simps [of _ _ _ "vaddr_to_index level (vaddr c)"]
      RemoveMappingL0_loop.simps [of _ "vaddr_to_index PT_L (vaddr c)"])

subsection \<open>The public operations run under the lock\<close>

lemma under_lockI:
  "trace_ext (emit EvLock s) s1 \<Longrightarrow> under_lock s (emit EvUnlock (s1\<lparr>virt := t\<rparr>))"
  by (auto simp: under_lock_def trace_ext_def emit_def)

lemma under_lockI2:
  "trace_ext (emit EvLock s) s1 \<Longrightarrow> under_lock s (emit EvUnlock s1)"
  by (auto simp: under_lock_def trace_ext_def emit_def)

lemma UnmapPages_under_lock:
  "check_vaddr ops va \<Longrightarrow> n \<noteq> 0 \<Longrightarrow> UnmapPages ops va n s = Inr (st, s') \<Longrightarrow> under_lock s s'"
  by (auto simp: UnmapPages_def Let_def split: sum.splits intro!: under_lockI dest: RemoveMapping_ext)

lemma MapPagesContiguous_under_lock:
  "check_vaddr ops va \<Longrightarrow> check_paddr ops pa \<Longrightarrow> n \<noteq> 0 \<Longrightarrow> allowed_flags ops f \<Longrightarrow>
     MapPagesContiguous ops va pa n f s = Inr (st, s') \<Longrightarrow> under_lock s s'"
  by (auto simp: MapPagesContiguous_def Let_def split: sum.splits intro!: under_lockI
           dest: AddMapping_ext)

lemma ProtectPages_under_lock:
  "check_vaddr ops va \<Longrightarrow> n \<noteq> 0 \<Longrightarrow> allowed_flags ops f \<Longrightarrow>
     ProtectPages ops va n f s = Inr (st, s') \<Longrightarrow> under_lock s s'"
  by (auto simp: ProtectPages_def Let_def split: sum.splits intro!: under_lockI
           dest: UpdateMapping_ext)

lemma MapPages_entry_ext:
  "MapPages_entry ops phys f idx v s = Inr (st, v', s') \<Longrightarrow> trace_ext s s'"
  by (auto simp: MapPages_entry_def Let_def split: sum.splits if_splits) (erule AddMapping_ext)+

lemma MapPages_loop_ext:
  "MapPages_loop ops phys f idx (v, s) = Inr (st, idx', s') \<Longrightarrow> trace_ext s s'"
proof (induction "length phys - idx" arbitrary: idx v s)
  case 0
  then show ?case by (simp add: MapPages_loop.simps)
next
  case (Suc n)
  then have lt: "idx < length phys" by simp
  from Suc.prems lt obtain st1 v1 s1 where
    e: "MapPages_entry ops phys f idx v s = Inr (st1, v1, s1)"
    by (cases "MapPages_entry ops phys f idx v s") (auto simp: MapPages_loop.simps[of _ _ _ idx])
  show ?case
  proof (cases "st1 = ZX_OK")
    case True
    with Suc.prems lt e have r: "MapPages_loop ops phys f (Suc idx) (v1, s1) = Inr (st, idx', s')"
      by (simp add: MapPages_loop.simps[of _ _ _ idx])
    from Suc.hyps(2) have "n = length phys - Suc idx" by simp
    from MapPages_entry_ext[OF e] Suc.hyps(1)[OF this r] show ?thesis by (rule trace_ext_trans)
  next
    case False
    with Suc.prems lt e have "s' = s1" by (simp add: MapPages_loop.simps[of _ _ _ idx])
    with MapPages_entry_ext[OF e] show ?thesis by simp
  qed
qed

lemma MapPages_undo_ext: "MapPages_undo ops va idx s = Inr s' \<Longrightarrow> trace_ext s s'"
  by (auto simp: MapPages_undo_def Let_def split: if_splits sum.splits dest: RemoveMapping_ext)

lemma MapPages_under_lock:
  assumes "check_vaddr ops va" "list_all (check_paddr ops) phys" "phys \<noteq> []" "allowed_flags ops f"
    and run: "MapPages ops va phys f s = Inr (st, s')"
  shows "under_lock s s'"
proof -
  from run assms obtain st1 idx s1 where
    l: "MapPages_loop ops phys f 0 (va, emit EvLock s) = Inr (st1, idx, s1)"
    by (auto simp: MapPages_def split: sum.splits)
  note e1 = MapPages_loop_ext[OF l]
  show ?thesis
  proof (cases "st1 = ZX_OK")
    case True
    with run assms l have "s' = emit EvUnlock s1" by (simp add: MapPages_def)
    with e1 show ?thesis by (simp add: under_lockI2)
  next
    case False
    with run assms l obtain s2 where u: "MapPages_undo ops va idx s1 = Inr s2"
      and s': "s' = emit EvUnlock s2"
      by (auto simp: MapPages_def split: sum.splits)
    from e1 MapPages_undo_ext[OF u] have "trace_ext (emit EvLock s) s2" by (rule trace_ext_trans)
    with s' show ?thesis by (simp add: under_lockI2)
  qed
qed

subsection \<open>Stores to entries: flush before invalidation\<close>

text \<open>
  C1. For a store through \<^verbatim>\<open>UpdateEntry\<close> or \<^verbatim>\<open>UnmapEntry\<close> to the entry at \<open>pte_ptr\<close> that held
  \<open>olde\<close>: let \<open>line\<close> be the cache line of the entry, \<open>prior\<close> the flush of another line that
  was pending before, and \<open>forced\<close> the flush of \<open>line\<close> (both only where the flusher performs
  invalidations). If \<open>olde\<close> was present, the events of the call are \<open>prior\<close>, \<open>forced\<close> and
  then the one TLB invalidation for \<open>(level, va)\<close>, and no line is pending once the
  invalidation is issued. If \<open>olde\<close> was not present, the call issues no TLB invalidation.
\<close>

theorem UpdateEntry_UnmapEntry_flush_before_invalidate:
  "(let line = pte_ptr AND cl_mask flusher;
        prior = (if line \<noteq> dirty_line flusher \<and> dirty_line flusher \<noteq> 0 \<and>
                    perform_invalidations flusher
                 then [EvClflush (dirty_line flusher)] else []);
        forced = (if line \<noteq> 0 \<and> perform_invalidations flusher then [EvClflush line] else []);
        tlb = EvTlbInvalidate level va (is_kernel_address ops va) was_terminal
    in (case UpdateEntry ops flusher level va pte_ptr olde pa flags was_terminal this of
          (newe, flusher', this') \<Rightarrow>
            newe = (pa OR flags OR X86_MMU_PG_P) \<and>
            (IS_PAGE_PRESENT olde \<longrightarrow>
               trace this' = trace this @ prior @ forced @ [tlb] \<and>
               (perform_invalidations flusher \<longrightarrow> dirty_line flusher' = 0)) \<and>
            (\<not> IS_PAGE_PRESENT olde \<longrightarrow> trace this' = trace this @ prior)) \<and>
       (case UnmapEntry ops flusher level va pte_ptr olde was_terminal this of
          (newe, flusher', this') \<Rightarrow>
            newe = 0 \<and>
            (IS_PAGE_PRESENT olde \<longrightarrow>
               trace this' = trace this @ prior @ forced @ [tlb] \<and>
               (perform_invalidations flusher \<longrightarrow> dirty_line flusher' = 0)) \<and>
            (\<not> IS_PAGE_PRESENT olde \<longrightarrow> trace this' = trace this @ prior)))"
  by (simp add: UpdateEntry_def UnmapEntry_def FlushPtEntry_def ForceFlush_eq
      TlbInvalidatePage_def emit_def Let_def)

theorem UpdateEntry_UnmapEntry_flush_before_invalidate_witness:
  "IS_PAGE_PRESENT 0x400003 \<and>
   trace (snd (snd (UpdateEntry mmu_ops (CacheLineFlusher_new mmu_ops True) PT_L 0x1000
                      0xffffff8000004008 0x400003 0x500000 2 True (empty_aspace [])))) =
     [EvClflush 0xffffff8000004000, EvTlbInvalidate PT_L 0x1000 False True] \<and>
   dirty_line (fst (snd (UpdateEntry mmu_ops (CacheLineFlusher_new mmu_ops True) PT_L 0x1000
                      0xffffff8000004008 0x400003 0x500000 2 True (empty_aspace [])))) = 0 \<and>
   \<not> IS_PAGE_PRESENT 0 \<and>
   trace (snd (snd (UnmapEntry mmu_ops (CacheLineFlusher_new mmu_ops True) PT_L 0x1000
                      0xffffff8000004008 0 True (empty_aspace [])))) = []"
  using UpdateEntry_UnmapEntry_flush_before_invalidate
          [where pte_ptr = "0xffffff8000004008" and flusher = "CacheLineFlusher_new mmu_ops True"
             and level = PT_L and va = "0x1000" and ops = mmu_ops and was_terminal = True
             and olde = "0x400003" and pa = "0x500000" and flags = 2 and this = "empty_aspace []"]
        UpdateEntry_UnmapEntry_flush_before_invalidate
          [where pte_ptr = "0xffffff8000004008" and flusher = "CacheLineFlusher_new mmu_ops True"
             and level = PT_L and va = "0x1000" and ops = mmu_ops and was_terminal = True
             and olde = 0 and pa = "0x500000" and flags = 2 and this = "empty_aspace []"]
  by (simp add: Let_def split_beta CacheLineFlusher_new_def mmu_ops_def empty_aspace_def
      IS_PAGE_PRESENT_def X86_MMU_PG_P_def)

subsection \<open>A failed split in RemoveMapping\<close>

text \<open>
  C4. In the loop body of \<^verbatim>\<open>RemoveMapping\<close>, on a present large entry that the cursor does not
  cover, when the allocation inside \<^verbatim>\<open>SplitLargePage\<close> fails: the entry is unmapped and the
  cursor skips it, but the body does not go on to the next index. It calls \<^verbatim>\<open>RemoveMapping\<close> for
  the lower level on the null pointer that \<^verbatim>\<open>get_next_table_from_entry\<close> returns for the cleared
  entry. When the range ends inside the entry that call does nothing and the body ends as the
  claim says; when the range goes on past the entry, the call dereferences the null pointer.
\<close>

theorem RemoveMapping_split_failure_recurses:
  assumes present: "IS_PAGE_PRESENT (pte (entries t index))"
    and large: "IS_LARGE_PAGE (pte (entries t index))"
    and partial: "\<not> (page_aligned level (vaddr c) \<and> csize c \<ge> page_size level)"
    and oom: "fst (map_alloc_page this) = None"
  shows "RemoveMapping_entry ops (RemoveMapping ops (lower_level level)) level index t c unmapped clf this =
           (case UnmapEntry ops clf level (vaddr c) (entry_ptr t index) (pte (entries t index)) True
                   (snd (map_alloc_page this)) of
              (newe, clf', this') \<Rightarrow>
                if csize (SkipEntry level c) = 0
                then Inr (Some (set_entry t index (Slot 0 None)), SkipEntry level c, True, clf', this')
                else Inl NullDeref)"
  using assms
  by (cases "map_alloc_page this")
     (auto simp: RemoveMapping_entry_def RemoveMapping_split_def SplitLargePage_def
        RemoveMapping_lower_def RemoveMapping_null UnmapEntry_eq get_next_table_from_entry_def
        IS_PAGE_PRESENT_def Let_def split: prod.splits)

text \<open>
  An entry for \<open>0x200000\<close> to \<open>0x400000\<close> and a range from \<open>0x201000\<close> to \<open>0x401000\<close>, with no
  memory left.
\<close>

theorem RemoveMapping_split_failure_recurses_witness:
  "IS_PAGE_PRESENT 0x800083 \<and> IS_LARGE_PAGE 0x800083 \<and> \<not> page_aligned PD_L 0x201000 \<and>
   fst (map_alloc_page (empty_aspace [])) = None \<and>
   RemoveMapping_entry mmu_ops (RemoveMapping mmu_ops PT_L) PD_L 1
     (set_entry (zero_table 0xffffff8000003000) 1 (Slot 0x800083 None))
     \<lparr>paddr = 0, vaddr = 0x201000, csize = 0x200000\<rparr> False
     (CacheLineFlusher_new mmu_ops True) (empty_aspace []) = Inl NullDeref"
  using RemoveMapping_split_failure_recurses [where ops = mmu_ops and level = PD_L and index = 1
          and t = "set_entry (zero_table 0xffffff8000003000) 1 (Slot 0x800083 None)"
          and c = "\<lparr>paddr = 0, vaddr = 0x201000, csize = 0x200000\<rparr>" and unmapped = False
          and clf = "CacheLineFlusher_new mmu_ops True" and this = "empty_aspace []"]
  by (simp add: IS_PAGE_PRESENT_def IS_LARGE_PAGE_def page_aligned_def PD_SHIFT_def
      X86_MMU_PG_P_def X86_MMU_PG_PS_def map_alloc_page_def empty_aspace_def set_entry_def
      zero_table_def SkipEntry_def UnmapEntry_def FlushPtEntry_def ForceFlush_def Let_def
      split: prod.splits)

text \<open>
  The same through the public operations: a 2 MiB mapping made with the last two frames of the
  allocator, then an unmap of 512 pages that starts one page into it.
\<close>

lemma UnmapPages_split_failure_example:
  "(case MapPagesContiguous mmu_ops 0x200000 0x800000 512 3
           (empty_aspace [0xffffff8000002000, 0xffffff8000003000]) of
      Inl f \<Rightarrow> None
    | Inr (st, s) \<Rightarrow> Some (st, pmm s, UnmapPages mmu_ops 0x201000 512 s)) =
   Some (ZX_OK, [], Inl NullDeref)"
  by (simp add: exec_simps)

subsection \<open>Query after a single-page Map\<close>

lemma AddMappingL0_single:
  assumes run: "AddMappingL0 ops table f c s = Inr (ZX_OK, c', table', s')"
    and one: "csize c = PAGE_SIZE"
  shows "GetMappingL0 table' (vaddr c) =
           Inr (Some (PT_L, paddr c OR terminal_flags ops PT_L f OR X86_MMU_PG_P)) \<and> csize c' = 0"
proof (cases table)
  case None
  with run one show ?thesis
    by (simp del: vaddr_to_index.simps add: AddMappingL0_def vaddr_to_index_less
        AddMappingL0_loop.simps [of _ _ "vaddr_to_index PT_L (vaddr c)"])
next
  case (Some t)
  with run one show ?thesis
    by (auto simp del: vaddr_to_index.simps simp add: AddMappingL0_def vaddr_to_index_less
        AddMappingL0_loop.simps [of _ _ "vaddr_to_index PT_L (vaddr c)"]
        AddMappingL0_loop.simps [of _ _ "Suc (vaddr_to_index PT_L (vaddr c))"]
        AddMappingL0_entry_eq GetMappingL0_def Let_def split: if_splits)
qed


lemma AddMapping_entry_single:
  assumes run: "AddMapping_entry ops rec f level index t c clf s = Inr (ZX_OK, table', c', clf', s')"
    and one: "csize c = PAGE_SIZE" and lvl: "level \<noteq> PT_L"
    and rec: "\<And>nt c s c' nt' s'. rec nt c s = Inr (ZX_OK, c', nt', s') \<Longrightarrow> csize c = PAGE_SIZE \<Longrightarrow>
                nt \<noteq> None \<and> R nt' c \<and> csize c' = 0"
  shows "\<exists>e nt'. table' = Some (set_entry t index e) \<and> IS_PAGE_PRESENT (pte e) \<and>
           \<not> IS_LARGE_PAGE (pte e) \<and> get_next_table_from_entry e = nt' \<and> R nt' c \<and>
           csize c' = 0"
  using run
proof (cases rule: AddMapping_entry_cases)
  case exists
  then show ?thesis by simp
next
  case large
  with one lvl show ?thesis by (simp add: page_size_le_PAGE_SIZE)
next
  case (lower e1)
  from lower(3) show ?thesis
  proof (cases rule: AddMapping_lower_cases)
    case oom
    then show ?thesis by simp
  next
    case (created nt')
    from rec [OF created(4) one] obtain nt where
      "get_next_table_from_entry
         (Slot (X86_VIRT_TO_PHYS ops (hd (pmm s)) OR intermediate_flags ops OR X86_MMU_PG_P)
               (Some (zero_table (hd (pmm s))))) = Some nt"
      and r: "R nt' c" "csize c' = 0" by auto
    from get_next_SomeD [OF this(1)] have "IS_PAGE_PRESENT (pte e1)" "\<not> IS_LARGE_PAGE (pte e1)"
      "get_next_table_from_entry e1 = nt'"
      by (simp_all add: created(5) get_next_table_from_entry_def)
    with r lower(4) show ?thesis by blast
  next
    case (existing nt')
    from rec [OF existing(2) one] obtain nt where
      "get_next_table_from_entry (entries t index) = Some nt"
      and r: "R nt' c" "csize c' = 0" by auto
    from get_next_SomeD [OF this(1)] have "IS_PAGE_PRESENT (pte e1)" "\<not> IS_LARGE_PAGE (pte e1)"
      "get_next_table_from_entry e1 = nt'"
      by (simp_all add: existing(3) get_next_table_from_entry_def)
    with r lower(4) show ?thesis by blast
  qed
qed

lemma AddMapping_single:
  "AddMapping ops f level table c s = Inr (ZX_OK, c', table', s') \<Longrightarrow> csize c = PAGE_SIZE \<Longrightarrow>
   table \<noteq> None \<and>
   GetMapping table' (vaddr c) level =
     Inr (Some (PT_L, paddr c OR terminal_flags ops PT_L f OR X86_MMU_PG_P)) \<and> csize c' = 0"
proof (induction ops f level table c s arbitrary: c' table' s' rule: AddMapping.induct)
  case (1 ops f level table c s)
  show ?case
  proof (cases "level = PT_L")
    case True
    with "1.prems" AddMapping_null [of ops f level c s] show ?thesis
      by (cases table) (auto simp: AddMapping.simps GetMapping.simps dest: AddMappingL0_single)
  next
    case False
    let ?rec = "\<lambda>next_table cursor this'. AddMapping ops f (lower_level level) next_table cursor this'"
    let ?i = "vaddr_to_index level (vaddr c)"
    from "1.prems" AddMapping_null [of ops f level c s] obtain t where t: "table = Some t"
      by (cases table) auto
    from "1.prems" False t obtain clf1 s1 where
      l: "AddMapping_loop ops ?rec f level ?i
            (Some t, c, CacheLineFlusher_new ops (needs_cache_flushes ops), s) =
          Inr (ZX_OK, table', c', clf1, s1)"
      by (auto simp: AddMapping.simps [of ops f level] split: sum.splits if_splits)
    then obtain t1 c1 clf2 s2 where
      e: "AddMapping_entry ops ?rec f level ?i t c (CacheLineFlusher_new ops (needs_cache_flushes ops)) s =
            Inr (ZX_OK, t1, c1, clf2, s2)"
      and l2: "AddMapping_loop ops ?rec f level (?i + 1) (t1, c1, clf2, s2) =
                 Inr (ZX_OK, table', c', clf1, s1)"
      using "1.prems"(2)
      by (auto simp del: vaddr_to_index.simps simp add: AddMapping_loop_step vaddr_to_index_less
               split: sum.splits if_splits)
    have "\<exists>e nt'. t1 = Some (set_entry t ?i e) \<and> IS_PAGE_PRESENT (pte e) \<and>
            \<not> IS_LARGE_PAGE (pte e) \<and> get_next_table_from_entry e = nt' \<and>
            (\<lambda>nt' ca. GetMapping nt' (vaddr ca) (lower_level level) =
                Inr (Some (PT_L, paddr ca OR terminal_flags ops PT_L f OR X86_MMU_PG_P))) nt' c \<and>
            csize c1 = 0"
    proof (rule AddMapping_entry_single [OF e "1.prems"(2) False])
      fix nt ca sa ca' nt' sa'
      assume "AddMapping ops f (lower_level level) nt ca sa = Inr (ZX_OK, ca', nt', sa')"
        and "csize ca = PAGE_SIZE"
      from "1.IH" [OF False this]
      show "nt \<noteq> None \<and>
            GetMapping nt' (vaddr ca) (lower_level level) =
              Inr (Some (PT_L, paddr ca OR terminal_flags ops PT_L f OR X86_MMU_PG_P)) \<and> csize ca' = 0" .
    qed
    then obtain e where e1: "t1 = Some (set_entry t ?i e)" "IS_PAGE_PRESENT (pte e)"
      "\<not> IS_LARGE_PAGE (pte e)"
      "GetMapping (get_next_table_from_entry e) (vaddr c) (lower_level level) =
         Inr (Some (PT_L, paddr c OR terminal_flags ops PT_L f OR X86_MMU_PG_P))"
      "csize c1 = 0" by auto
    from l2 e1 have "table' = t1" "c' = c1"
      by (simp_all add: AddMapping_loop_done)
    with e1 False t show ?thesis
      by (simp add: GetMapping.simps [of _ _ level] Let_def)
  qed
qed


lemma QueryVaddr_found:
  assumes "GetMapping (virt s) va (top_level ops) = Inr (Some (PT_L, e))"
  shows "QueryVaddr ops va s =
           Inr (ZX_OK, Some ((e AND X86_PG_FRAME) OR (va AND PAGE_OFFSET_MASK_4KB),
                             pt_flags_to_mmu_flags ops e PT_L),
                s\<lparr>trace := trace s @ [EvLock, EvUnlock]\<rparr>)"
  using assms by (simp add: QueryVaddr_def emit_def)

text \<open>
  C5 (as amended). After \<^verbatim>\<open>MapPagesContiguous\<close> with a count of 1, or \<^verbatim>\<open>MapPages\<close> with one page, has
  returned \<^verbatim>\<open>ZX_OK\<close> for \<open>va\<close>, \<open>pa\<close> and \<open>f\<close>, \<^verbatim>\<open>QueryVaddr\<close> of \<open>va\<close> returns \<^verbatim>\<open>ZX_OK\<close>. The entry
  found is the \<^verbatim>\<open>PT_L\<close> entry the map stored, \<open>e = pa | terminal_flags(PT_L, f) | P\<close>. The address
  returned is the frame of \<open>e\<close> combined with the offset of \<open>va\<close> in the page, and the flags
  returned are \<^verbatim>\<open>pt_flags_to_mmu_flags\<close> of the whole entry \<open>e\<close> at \<^verbatim>\<open>PT_L\<close>. The query changes nothing
  but the trace, by taking and releasing the lock. When \<open>pa\<close> has frame bits only, the
  terminal flags have neither frame bits nor the present bit, and \<^verbatim>\<open>pt_flags_to_mmu_flags\<close>
  reads neither, these are \<open>pa\<close> combined with the offset, and \<^verbatim>\<open>pt_flags_to_mmu_flags\<close> of the
  terminal flags of \<open>f\<close>.
\<close>

theorem Query_after_single_page_Map:
  assumes "MapPagesContiguous ops va pa 1 f s = Inr (ZX_OK, s1) \<or>
           MapPages ops va [pa] f s = Inr (ZX_OK, s1)"
  shows "QueryVaddr ops va s1 =
           Inr (ZX_OK,
                Some (((pa OR terminal_flags ops PT_L f OR X86_MMU_PG_P) AND X86_PG_FRAME) OR
                        (va AND (page_size PT_L - 1)),
                      pt_flags_to_mmu_flags ops (pa OR terminal_flags ops PT_L f OR X86_MMU_PG_P) PT_L),
                s1\<lparr>trace := trace s1 @ [EvLock, EvUnlock]\<rparr>) \<and>
         (pa AND X86_PG_FRAME = pa \<and>
          terminal_flags ops PT_L f AND (X86_PG_FRAME OR X86_MMU_PG_P) = 0 \<and>
          (\<forall>e. pt_flags_to_mmu_flags ops e PT_L =
                pt_flags_to_mmu_flags ops (e AND NOT (X86_PG_FRAME OR X86_MMU_PG_P)) PT_L) \<longrightarrow>
            QueryVaddr ops va s1 =
              Inr (ZX_OK,
                   Some (pa OR (va AND (page_size PT_L - 1)),
                         pt_flags_to_mmu_flags ops (terminal_flags ops PT_L f) PT_L),
                   s1\<lparr>trace := trace s1 @ [EvLock, EvUnlock]\<rparr>))"
proof -
  let ?tf = "terminal_flags ops PT_L f"
  let ?e = "pa OR ?tf OR X86_MMU_PG_P"
  from assms have "GetMapping (virt s1) va (top_level ops) = Inr (Some (PT_L, ?e))"
  proof
    assume "MapPagesContiguous ops va pa 1 f s = Inr (ZX_OK, s1)"
    then show ?thesis
      by (auto simp: MapPagesContiguous_def Let_def emit_def split: if_splits sum.splits
               dest!: AddMapping_single)
  next
    assume "MapPages ops va [pa] f s = Inr (ZX_OK, s1)"
    then show ?thesis
      by (auto simp: MapPages_def MapPages_loop.simps [of _ _ _ 0] MapPages_loop.simps [of _ _ _ "Suc 0"]
                     MapPages_entry_def Let_def emit_def
               split: if_splits sum.splits dest!: AddMapping_single)
  qed
  from QueryVaddr_found [OF this] have q:
    "QueryVaddr ops va s1 =
       Inr (ZX_OK,
            Some ((?e AND X86_PG_FRAME) OR (va AND (page_size PT_L - 1)),
                  pt_flags_to_mmu_flags ops ?e PT_L),
            s1\<lparr>trace := trace s1 @ [EvLock, EvUnlock]\<rparr>)"
    by (simp add: PAGE_OFFSET_MASK_4KB_def)
  have "?e AND X86_PG_FRAME = pa \<and>
        pt_flags_to_mmu_flags ops ?e PT_L = pt_flags_to_mmu_flags ops ?tf PT_L"
    if pa: "pa AND X86_PG_FRAME = pa"
      and tf: "?tf AND (X86_PG_FRAME OR X86_MMU_PG_P) = 0"
      and dec: "\<forall>e. pt_flags_to_mmu_flags ops e PT_L =
                pt_flags_to_mmu_flags ops (e AND NOT (X86_PG_FRAME OR X86_MMU_PG_P)) PT_L"
  proof -
    let ?m = "X86_PG_FRAME OR X86_MMU_PG_P"
    have P: "X86_MMU_PG_P AND X86_PG_FRAME = 0"
      by (simp add: X86_MMU_PG_P_def X86_PG_FRAME_def)
    from tf have tfF: "?tf AND X86_PG_FRAME = 0" and tfP: "?tf AND X86_MMU_PG_P = 0"
      by (simp_all add: bit_eq_iff bit_and_iff bit_or_iff)
    from pa tfF P have frame: "?e AND X86_PG_FRAME = pa" by (simp add: word_ao_dist)
    from pa have "pa AND NOT ?m = 0"
      by (simp add: bit_eq_iff bit_and_iff bit_or_iff bit_not_iff) blast
    moreover from tf have "?tf AND NOT ?m = ?tf"
      by (simp add: bit_eq_iff bit_and_iff bit_or_iff bit_not_iff) blast
    moreover have "X86_MMU_PG_P AND NOT ?m = 0"
      by (simp add: bit_eq_iff bit_and_iff bit_or_iff bit_not_iff)
    ultimately have "?e AND NOT ?m = ?tf AND NOT ?m" by (simp add: word_ao_dist)
    with dec [rule_format, of ?e] dec [rule_format, of ?tf]
    have "pt_flags_to_mmu_flags ops ?e PT_L = pt_flags_to_mmu_flags ops ?tf PT_L" by simp
    with frame show ?thesis ..
  qed
  with q show ?thesis by simp
qed

text \<open>
  C5 as stated fails for a policy whose \<^verbatim>\<open>pt_flags_to_mmu_flags\<close> reads the present bit: here
  it makes a page readable when bit 0 of the entry is set. After a map with flags 3 the query
  returns the flags 3, of the whole entry, and \<^verbatim>\<open>pt_flags_to_mmu_flags\<close> of the terminal flags
  alone is 2.
\<close>

theorem Query_after_single_page_Map_counterexample:
  "(let ops = mmu_ops\<lparr>pt_flags_to_mmu_flags :=
                (\<lambda>pte level. (if pte AND 1 \<noteq> 0 then 1 else 0) OR (if pte AND 2 \<noteq> 0 then 2 else 0))\<rparr>
    in (case MapPagesContiguous ops 0x1000 0x400000 1 3
               (empty_aspace [0xffffff8000002000, 0xffffff8000003000, 0xffffff8000004000]) of
          Inl fault \<Rightarrow> False
        | Inr (st, s1) \<Rightarrow> st = ZX_OK \<and>
            QueryVaddr ops 0x1000 s1 =
              Inr (ZX_OK, Some (0x400000, 3), s1\<lparr>trace := trace s1 @ [EvLock, EvUnlock]\<rparr>)) \<and>
       pt_flags_to_mmu_flags ops (terminal_flags ops PT_L 3) PT_L = 2)"
  by (simp add: exec_simps)

text \<open>
  One page at \<open>0x1000\<close>, readable and writable, in an empty address space, through either
  operation:
\<close>

theorem Query_after_single_page_Map_witness:
  "pt_flags_to_mmu_flags mmu_ops (terminal_flags mmu_ops PT_L 3) PT_L = 3 \<and>
   (case MapPagesContiguous mmu_ops 0x1000 0x400000 1 3
           (empty_aspace [0xffffff8000002000, 0xffffff8000003000, 0xffffff8000004000]) of
      Inl fault \<Rightarrow> False
    | Inr (st, s1) \<Rightarrow> st = ZX_OK \<and>
        QueryVaddr mmu_ops 0x1000 s1 =
          Inr (ZX_OK, Some (0x400000, 3), s1\<lparr>trace := trace s1 @ [EvLock, EvUnlock]\<rparr>)) \<and>
   (case MapPages mmu_ops 0x1000 [0x400000] 3
           (empty_aspace [0xffffff8000002000, 0xffffff8000003000, 0xffffff8000004000]) of
      Inl fault \<Rightarrow> False
    | Inr (st, s1) \<Rightarrow> st = ZX_OK \<and>
        QueryVaddr mmu_ops 0x1000 s1 =
          Inr (ZX_OK, Some (0x400000, 3), s1\<lparr>trace := trace s1 @ [EvLock, EvUnlock]\<rparr>))"
proof -
  obtain s1 where run1: "MapPagesContiguous mmu_ops 0x1000 0x400000 1 3
      (empty_aspace [0xffffff8000002000, 0xffffff8000003000, 0xffffff8000004000]) = Inr (ZX_OK, s1)"
    by (simp add: exec_simps)
  obtain s2 where run2: "MapPages mmu_ops 0x1000 [0x400000] 3
      (empty_aspace [0xffffff8000002000, 0xffffff8000003000, 0xffffff8000004000]) = Inr (ZX_OK, s2)"
    by (simp add: exec_simps)
  have pa: "(0x400000 :: 64 word) AND X86_PG_FRAME = 0x400000"
    and tf: "terminal_flags mmu_ops PT_L 3 AND (X86_PG_FRAME OR X86_MMU_PG_P) = 0"
    and fl: "pt_flags_to_mmu_flags mmu_ops (terminal_flags mmu_ops PT_L 3) PT_L = 3"
    and off: "(0x1000 :: 64 word) AND (page_size PT_L - 1) = 0"
    by (simp_all add: mmu_ops_def X86_PG_FRAME_def X86_MMU_PG_P_def PT_SHIFT_def)
  have dec: "\<forall>e. pt_flags_to_mmu_flags mmu_ops e PT_L =
      pt_flags_to_mmu_flags mmu_ops (e AND NOT (X86_PG_FRAME OR X86_MMU_PG_P)) PT_L"
  proof
    fix e :: "64 word"
    have m: "NOT (X86_PG_FRAME OR X86_MMU_PG_P) = (0xFFF0000000000FFE :: 64 word)"
      by (simp add: X86_PG_FRAME_def X86_MMU_PG_P_def)
    have "(e AND 0xFFF0000000000FFE) AND 2 = e AND 2"
      "(e AND 0xFFF0000000000FFE) AND 0x8000000000000000 = e AND 0x8000000000000000"
      by (simp_all add: and.assoc)
    then show "pt_flags_to_mmu_flags mmu_ops e PT_L =
      pt_flags_to_mmu_flags mmu_ops (e AND NOT (X86_PG_FRAME OR X86_MMU_PG_P)) PT_L"
      unfolding m by (simp add: mmu_ops_def)
  qed
  note h = conjI [OF pa conjI [OF tf dec]]
  from Query_after_single_page_Map [OF disjI1, OF run1, THEN conjunct2, rule_format, OF h]
  have q1: "QueryVaddr mmu_ops 0x1000 s1 =
      Inr (ZX_OK, Some (0x400000, 3), s1\<lparr>trace := trace s1 @ [EvLock, EvUnlock]\<rparr>)"
    unfolding fl off by simp
  from Query_after_single_page_Map [OF disjI2, OF run2, THEN conjunct2, rule_format, OF h]
  have q2: "QueryVaddr mmu_ops 0x1000 s2 =
      Inr (ZX_OK, Some (0x400000, 3), s2\<lparr>trace := trace s2 @ [EvLock, EvUnlock]\<rparr>)"
    unfolding fl off by simp
  from q1 q2 fl show ?thesis by (simp add: run1 run2)
qed

subsection \<open>Validation and locking in the public operations\<close>

text \<open>
  C8 (as amended). \<^verbatim>\<open>UnmapPages\<close>, \<^verbatim>\<open>ProtectPages\<close>, \<^verbatim>\<open>MapPages\<close> and \<^verbatim>\<open>MapPagesContiguous\<close> return
  \<^verbatim>\<open>ZX_ERR_INVALID_ARGS\<close>, without acquiring the lock and without any effect, when
  \<^verbatim>\<open>check_vaddr\<close> rejects the address, whatever the count, and the two map operations also when
  \<^verbatim>\<open>check_paddr\<close> rejects a physical address. With valid addresses and a count of zero they
  return \<^verbatim>\<open>ZX_OK\<close> without acquiring the lock and without looking at \<^verbatim>\<open>mmu_flags\<close>. With valid
  addresses and a count that is not zero, the three operations that take \<^verbatim>\<open>mmu_flags\<close> return
  \<^verbatim>\<open>ZX_ERR_INVALID_ARGS\<close>, again without any effect, when \<^verbatim>\<open>allowed_flags\<close> rejects them. Every
  other call that returns has held the lock throughout: the first of its events is the
  acquisition, the last the release, and none between them is an acquisition or a release.
  \<^verbatim>\<open>QueryVaddr\<close> validates nothing: whenever it returns, it has acquired and released the lock
  and its status is not \<^verbatim>\<open>ZX_ERR_INVALID_ARGS\<close>.
\<close>

theorem api_validation:
  "(\<not> check_vaddr ops va \<longrightarrow>
      UnmapPages ops va n s = Inr (ZX_ERR_INVALID_ARGS, s) \<and>
      ProtectPages ops va n f s = Inr (ZX_ERR_INVALID_ARGS, s) \<and>
      MapPages ops va phys f s = Inr (ZX_ERR_INVALID_ARGS, s) \<and>
      MapPagesContiguous ops va pa n f s = Inr (ZX_ERR_INVALID_ARGS, s)) \<and>
   (\<not> list_all (check_paddr ops) phys \<longrightarrow> MapPages ops va phys f s = Inr (ZX_ERR_INVALID_ARGS, s)) \<and>
   (\<not> check_paddr ops pa \<longrightarrow> MapPagesContiguous ops va pa n f s = Inr (ZX_ERR_INVALID_ARGS, s)) \<and>
   (check_vaddr ops va \<longrightarrow>
      UnmapPages ops va 0 s = Inr (ZX_OK, s) \<and>
      ProtectPages ops va 0 f s = Inr (ZX_OK, s) \<and>
      (n \<noteq> 0 \<and> UnmapPages ops va n s = Inr (st, s') \<longrightarrow> under_lock s s') \<and>
      (n \<noteq> 0 \<and> \<not> allowed_flags ops f \<longrightarrow> ProtectPages ops va n f s = Inr (ZX_ERR_INVALID_ARGS, s)) \<and>
      (n \<noteq> 0 \<and> allowed_flags ops f \<and> ProtectPages ops va n f s = Inr (st, s') \<longrightarrow> under_lock s s') \<and>
      (list_all (check_paddr ops) phys \<longrightarrow>
         MapPages ops va [] f s = Inr (ZX_OK, s) \<and>
         (phys \<noteq> [] \<and> \<not> allowed_flags ops f \<longrightarrow> MapPages ops va phys f s = Inr (ZX_ERR_INVALID_ARGS, s)) \<and>
         (phys \<noteq> [] \<and> allowed_flags ops f \<and> MapPages ops va phys f s = Inr (st, s') \<longrightarrow>
            under_lock s s')) \<and>
      (check_paddr ops pa \<longrightarrow>
         MapPagesContiguous ops va pa 0 f s = Inr (ZX_OK, s) \<and>
         (n \<noteq> 0 \<and> \<not> allowed_flags ops f \<longrightarrow>
            MapPagesContiguous ops va pa n f s = Inr (ZX_ERR_INVALID_ARGS, s)) \<and>
         (n \<noteq> 0 \<and> allowed_flags ops f \<and> MapPagesContiguous ops va pa n f s = Inr (st, s') \<longrightarrow>
            under_lock s s'))) \<and>
   (QueryVaddr ops va s = Inr (st, r, s') \<longrightarrow>
      st \<noteq> ZX_ERR_INVALID_ARGS \<and> s' = s\<lparr>trace := trace s @ [EvLock, EvUnlock]\<rparr>)"
proof -
  have q: "QueryVaddr ops va s = Inr (st, r, s') \<longrightarrow>
      st \<noteq> ZX_ERR_INVALID_ARGS \<and> s' = s\<lparr>trace := trace s @ [EvLock, EvUnlock]\<rparr>"
    by (auto simp: QueryVaddr_def Let_def emit_def split: sum.splits option.splits PageTableLevel.splits)
  have u: "n \<noteq> 0 \<and> UnmapPages ops va n s = Inr (st, s') \<longrightarrow> under_lock s s'"
    if "check_vaddr ops va"
    using that by (auto elim: UnmapPages_under_lock)
  have p: "n \<noteq> 0 \<and> allowed_flags ops f \<and> ProtectPages ops va n f s = Inr (st, s') \<longrightarrow> under_lock s s'"
    if "check_vaddr ops va"
    using that by (auto elim: ProtectPages_under_lock)
  have m: "phys \<noteq> [] \<and> allowed_flags ops f \<and> MapPages ops va phys f s = Inr (st, s') \<longrightarrow>
      under_lock s s'"
    if "check_vaddr ops va" "list_all (check_paddr ops) phys"
    using that by (auto elim: MapPages_under_lock)
  have c: "n \<noteq> 0 \<and> allowed_flags ops f \<and> MapPagesContiguous ops va pa n f s = Inr (st, s') \<longrightarrow>
      under_lock s s'"
    if "check_vaddr ops va" "check_paddr ops pa"
    using that by (auto elim: MapPagesContiguous_under_lock)
  show ?thesis
    by (intro conjI impI q u p m c)
       (simp_all add: UnmapPages_def ProtectPages_def MapPages_def MapPagesContiguous_def)
qed

text \<open>
  C8 as stated fails: \<^verbatim>\<open>QueryVaddr\<close> accepts an address that \<^verbatim>\<open>check_vaddr\<close> rejects, and a
  mapping call with a count of zero succeeds, without taking the lock, with flags that
  \<^verbatim>\<open>allowed_flags\<close> rejects.
\<close>

theorem api_validation_counterexample:
  "\<not> check_vaddr mmu_ops 0x1001 \<and>
   QueryVaddr mmu_ops 0x1001 (empty_aspace []) =
     Inr (ZX_ERR_NOT_FOUND, None, (empty_aspace [])\<lparr>trace := [EvLock, EvUnlock]\<rparr>) \<and>
   \<not> allowed_flags mmu_ops 0 \<and>
   MapPagesContiguous mmu_ops 0x1000 0x400000 0 0 (empty_aspace []) = Inr (ZX_OK, empty_aspace [])"
  by (simp add: mmu_ops_def IS_PAGE_ALIGNED_def PAGE_SIZE_def QueryVaddr_def empty_aspace_def
      emit_def GetMapping.simps zero_table_def IS_PAGE_PRESENT_def MapPagesContiguous_def
      X86_PG_FRAME_def)

text \<open>
  An invalid address, invalid flags, and a map of one page into an empty address space, whose
  events are the acquisition, three allocations, the flushes of the four entries written, and
  the release:
\<close>

theorem api_validation_witness:
  "\<not> check_vaddr mmu_ops 0x1001 \<and>
   UnmapPages mmu_ops 0x1001 1 (empty_aspace []) = Inr (ZX_ERR_INVALID_ARGS, empty_aspace []) \<and>
   MapPages mmu_ops 0x1001 [0x400000] 3 (empty_aspace []) = Inr (ZX_ERR_INVALID_ARGS, empty_aspace []) \<and>
   check_vaddr mmu_ops 0x1000 \<and> check_paddr mmu_ops 0x400000 \<and> \<not> allowed_flags mmu_ops 0 \<and>
   ProtectPages mmu_ops 0x1000 0 0 (empty_aspace []) = Inr (ZX_OK, empty_aspace []) \<and>
   MapPagesContiguous mmu_ops 0x1000 0x400000 1 0 (empty_aspace []) =
     Inr (ZX_ERR_INVALID_ARGS, empty_aspace []) \<and>
   allowed_flags mmu_ops 3 \<and>
   (case MapPagesContiguous mmu_ops 0x1000 0x400000 1 3
           (empty_aspace [0xffffff8000002000, 0xffffff8000003000, 0xffffff8000004000]) of
      Inl fault \<Rightarrow> False
    | Inr (st, s') \<Rightarrow> st = ZX_OK \<and>
        under_lock (empty_aspace [0xffffff8000002000, 0xffffff8000003000, 0xffffff8000004000]) s' \<and>
        trace s' = [EvLock, EvAlloc 0xffffff8000002000, EvAlloc 0xffffff8000003000,
                    EvAlloc 0xffffff8000004000, EvClflush 0xffffff8000004000,
                    EvClflush 0xffffff8000003000, EvClflush 0xffffff8000002000,
                    EvClflush 0xffffff8000001000, EvUnlock]) \<and>
   (case QueryVaddr mmu_ops 0x1000 (empty_aspace []) of
      Inl fault \<Rightarrow> False
    | Inr (st, r, s') \<Rightarrow> st = ZX_ERR_NOT_FOUND \<and> trace s' = [EvLock, EvUnlock])"
proof -
  obtain s' where run: "MapPagesContiguous mmu_ops 0x1000 0x400000 1 3
      (empty_aspace [0xffffff8000002000, 0xffffff8000003000, 0xffffff8000004000]) = Inr (ZX_OK, s')"
    and tr: "trace s' = [EvLock, EvAlloc 0xffffff8000002000, EvAlloc 0xffffff8000003000,
                    EvAlloc 0xffffff8000004000, EvClflush 0xffffff8000004000,
                    EvClflush 0xffffff8000003000, EvClflush 0xffffff8000002000,
                    EvClflush 0xffffff8000001000, EvUnlock]"
    by (simp add: exec_simps)
  obtain r q where qr: "QueryVaddr mmu_ops 0x1000 (empty_aspace []) = Inr (ZX_ERR_NOT_FOUND, r, q)"
    by (simp add: exec_simps)
  have v: "\<not> check_vaddr mmu_ops 0x1001" "check_vaddr mmu_ops 0x1000" "check_paddr mmu_ops 0x400000"
    "\<not> allowed_flags mmu_ops 0" "allowed_flags mmu_ops 3"
    by (simp_all add: mmu_ops_def IS_PAGE_ALIGNED_def PAGE_SIZE_def X86_PG_FRAME_def)
  from api_validation [where ops = mmu_ops and va = "0x1001" and n = 1 and s = "empty_aspace []"
          and phys = "[0x400000]" and f = 3 and pa = "0x400000"] v
  have a: "UnmapPages mmu_ops 0x1001 1 (empty_aspace []) = Inr (ZX_ERR_INVALID_ARGS, empty_aspace [])"
    "MapPages mmu_ops 0x1001 [0x400000] 3 (empty_aspace []) = Inr (ZX_ERR_INVALID_ARGS, empty_aspace [])"
    by simp_all
  from api_validation [where ops = mmu_ops and va = "0x1000" and n = 1 and s = "empty_aspace []"
          and phys = "[0x400000]" and f = 0 and pa = "0x400000" and st = ZX_ERR_NOT_FOUND
          and r = r and s' = q] v qr
  have b: "ProtectPages mmu_ops 0x1000 0 0 (empty_aspace []) = Inr (ZX_OK, empty_aspace [])"
    "MapPagesContiguous mmu_ops 0x1000 0x400000 1 0 (empty_aspace []) =
       Inr (ZX_ERR_INVALID_ARGS, empty_aspace [])"
    "q = (empty_aspace [])\<lparr>trace := trace (empty_aspace []) @ [EvLock, EvUnlock]\<rparr>"
    by simp_all
  from b(3) have tq: "trace q = [EvLock, EvUnlock]" by (simp add: empty_aspace_def)
  from api_validation [where ops = mmu_ops and va = "0x1000" and n = 1
          and s = "empty_aspace [0xffffff8000002000, 0xffffff8000003000, 0xffffff8000004000]"
          and f = 3 and pa = "0x400000" and st = ZX_OK and s' = s'] v run
  have c: "under_lock (empty_aspace [0xffffff8000002000, 0xffffff8000003000, 0xffffff8000004000]) s'"
    by simp
  from v a b(1,2) c tr tq show ?thesis
    by (simp add: run qr)
qed

subsection \<open>The undo of MapPages\<close>

text \<open>
  C9. \<^verbatim>\<open>MapPages\<close> validates the first address only, and its loop advances the address with
  \<^verbatim>\<open>v += PAGE_SIZE\<close>, which wraps around at the end of the address space. With \<open>0x1000\<close> mapped
  already, a call for three pages from \<open>0xfffffffffffff000\<close> on passes the validation, maps its
  first page there and its second page at \<open>0\<close>, and fails at \<open>0x1000\<close> with
  \<^verbatim>\<open>ZX_ERR_ALREADY_EXISTS\<close>. The \<^verbatim>\<open>undo\<close> auto-call then runs \<^verbatim>\<open>RemoveMapping\<close> over two pages from
  \<open>0xfffffffffffff000\<close> on; that walk stops at the last entry of the top table with one page of
  its range left, so the first page is unmapped and the second stays mapped when the error is
  returned.
\<close>

theorem MapPages_undo_wraps:
  "(case MapPagesContiguous mmu_ops 0x1000 0x500000 1 3
           (empty_aspace [0xffffff8000002000, 0xffffff8000003000, 0xffffff8000004000,
                          0xffffff8000005000, 0xffffff8000006000, 0xffffff8000007000]) of
      Inl fault \<Rightarrow> False
    | Inr (st0, s0) \<Rightarrow> st0 = ZX_OK \<and>
        check_vaddr mmu_ops 0xfffffffffffff000 \<and>
        list_all (check_paddr mmu_ops) [0x400000, 0x401000, 0x402000] \<and> allowed_flags mmu_ops 3 \<and>
        (\<exists>s2. QueryVaddr mmu_ops 0 s0 = Inr (ZX_ERR_NOT_FOUND, None, s2)) \<and>
        (case MapPages_loop mmu_ops [0x400000, 0x401000, 0x402000] 3 0
                (0xfffffffffffff000, emit EvLock s0) of
           Inl fault \<Rightarrow> False
         | Inr (st, idx, s1) \<Rightarrow> st = ZX_ERR_ALREADY_EXISTS \<and> idx = 2 \<and>
             (case RemoveMapping mmu_ops PML4_L (virt s1)
                     \<lparr>paddr = 0, vaddr = 0xfffffffffffff000, csize = 2 * PAGE_SIZE\<rparr> s1 of
                Inl fault \<Rightarrow> False
              | Inr (unmapped, result, rest) \<Rightarrow>
                  result = \<lparr>paddr = 0, vaddr = 0, csize = PAGE_SIZE\<rparr>)) \<and>
        (case MapPages mmu_ops 0xfffffffffffff000 [0x400000, 0x401000, 0x402000] 3 s0 of
           Inl fault \<Rightarrow> False
         | Inr (st, s1) \<Rightarrow> st = ZX_ERR_ALREADY_EXISTS \<and>
             (\<exists>s2. QueryVaddr mmu_ops 0xfffffffffffff000 s1 = Inr (ZX_ERR_NOT_FOUND, None, s2)) \<and>
             (\<exists>s2. QueryVaddr mmu_ops 0 s1 = Inr (ZX_OK, Some (0x401000, 3), s2))))"
proof -
  let ?phys = "[0x400000, 0x401000, 0x402000] :: paddr_t list"
  let ?va = "0xfffffffffffff000 :: vaddr_t"
  obtain s0 where r0: "MapPagesContiguous mmu_ops 0x1000 0x500000 1 3
      (empty_aspace [0xffffff8000002000, 0xffffff8000003000, 0xffffff8000004000,
                     0xffffff8000005000, 0xffffff8000006000, 0xffffff8000007000]) = Inr (ZX_OK, s0)"
    by (simp add: exec_simps)
  have v: "check_vaddr mmu_ops ?va" "list_all (check_paddr mmu_ops) ?phys" "allowed_flags mmu_ops 3"
    by (simp_all add: exec_simps)
  have q0: "\<exists>s2. QueryVaddr mmu_ops 0 s0 = Inr (ZX_ERR_NOT_FOUND, None, s2)"
    using r0 by (clarsimp simp: exec_simps)
  obtain s1 where l: "MapPages_loop mmu_ops ?phys 3 0 (?va, emit EvLock s0) =
      Inr (ZX_ERR_ALREADY_EXISTS, 2, s1)"
    using r0 by (clarsimp simp: exec_simps)
  obtain unmapped table' s2 where u: "RemoveMapping mmu_ops PML4_L (virt s1)
      \<lparr>paddr = 0, vaddr = ?va, csize = 2 * PAGE_SIZE\<rparr> s1 =
      Inr (unmapped, \<lparr>paddr = 0, vaddr = 0, csize = PAGE_SIZE\<rparr>, table', s2)"
    and q1: "\<exists>s3. QueryVaddr mmu_ops ?va (emit EvUnlock (s2\<lparr>virt := table'\<rparr>)) =
      Inr (ZX_ERR_NOT_FOUND, None, s3)"
    and q2: "\<exists>s3. QueryVaddr mmu_ops 0 (emit EvUnlock (s2\<lparr>virt := table'\<rparr>)) =
      Inr (ZX_OK, Some (0x401000, 3), s3)"
    using r0 l by (clarsimp simp: exec_simps)
  from v l u have m: "MapPages mmu_ops ?va ?phys 3 s0 =
      Inr (ZX_ERR_ALREADY_EXISTS, emit EvUnlock (s2\<lparr>virt := table'\<rparr>))"
    by (simp add: MapPages_def MapPages_undo_def mmu_ops_def)
  from v q0 q1 q2 show ?thesis
    by (simp only: r0 l u m sum.case prod.case simp_thms)
qed

subsection \<open>The cursor of a walk\<close>




end
